theory Spec2Isabelle
  imports Main "HOL-Library.AList"
begin

section \<open>The Prince chatbot: conversation orchestration (app2.py)\<close>

text \<open>
  The development embeds \<^verbatim>\<open>PrinceChatbot.process_message\<close> and the methods it calls.
  Strings are byte strings; \<^verbatim>\<open>str.lower\<close> and \<^verbatim>\<open>str.strip\<close> are modelled on ASCII.
  The SQLite tables are lists of rows in insertion order, timestamps are natural numbers.
  What the collaborators answer on a turn (search provider, vector index, language model,
  the clock, the process environment) is the turn's \<open>env\<close>.
\<close>

subsection \<open>Python values and dictionaries\<close>

datatype pyval =
    PNone
  | PBool bool
  | PInt int
  | PStr string
  | PDict "(string \<times> pyval) list"

text \<open>Truth value testing, as \<^verbatim>\<open>if x:\<close> and \<^verbatim>\<open>not x\<close> do it.\<close>

fun truthy :: "pyval \<Rightarrow> bool" where
  "truthy PNone = False"
| "truthy (PBool b) = b"
| "truthy (PInt i) = (i \<noteq> 0)"
| "truthy (PStr s) = (s \<noteq> [])"
| "truthy (PDict d) = (d \<noteq> [])"

text \<open>
  A \<^verbatim>\<open>dict\<close> keeps insertion order: an association list with distinct keys, where
  \<^verbatim>\<open>d[k] = v\<close> replaces in place or appends.
\<close>

type_synonym pydict = "(string \<times> pyval) list"

definition key_in :: "string \<Rightarrow> pydict \<Rightarrow> bool" where
  "key_in k d = (map_of d k \<noteq> None)"

definition dict_get :: "pydict \<Rightarrow> string \<Rightarrow> pyval \<Rightarrow> pyval" where
  "dict_get d k dflt = (case map_of d k of None \<Rightarrow> dflt | Some v \<Rightarrow> v)"

definition dict_set :: "pydict \<Rightarrow> string \<Rightarrow> pyval \<Rightarrow> pydict" where
  "dict_set d k v = AList.update k v d"

subsection \<open>String operations\<close>

definition nl :: string where
  "nl = [CHR 0x0A]"

definition upper_letters :: string where
  "upper_letters = ''ABCDEFGHIJKLMNOPQRSTUVWXYZ''"

definition lower_letters :: string where
  "lower_letters = ''abcdefghijklmnopqrstuvwxyz''"

definition lower_char :: "char \<Rightarrow> char" where
  "lower_char c = (case map_of (zip upper_letters lower_letters) c of None \<Rightarrow> c | Some l \<Rightarrow> l)"

definition lower :: "string \<Rightarrow> string" where
  "lower s = map lower_char s"

definition is_space :: "char \<Rightarrow> bool" where
  "is_space c = (c \<in> set [CHR 0x20, CHR 0x09, CHR 0x0A, CHR 0x0B, CHR 0x0C, CHR 0x0D,
                           CHR 0x1C, CHR 0x1D, CHR 0x1E, CHR 0x1F])"

definition strip :: "string \<Rightarrow> string" where
  "strip s = rev (dropWhile is_space (rev (dropWhile is_space s)))"

fun starts_with :: "string \<Rightarrow> string \<Rightarrow> bool" where
  "starts_with [] s = True"
| "starts_with (p # ps) [] = False"
| "starts_with (p # ps) (c # cs) = (p = c \<and> starts_with ps cs)"

text \<open>\<^verbatim>\<open>sub in s\<close> on strings: \<open>sub\<close> occurs in \<open>s\<close> as a contiguous run.\<close>

fun str_in :: "string \<Rightarrow> string \<Rightarrow> bool" where
  "str_in sub [] = (sub = [])"
| "str_in sub (c # cs) = (starts_with sub (c # cs) \<or> str_in sub cs)"

fun join :: "string \<Rightarrow> string list \<Rightarrow> string" where
  "join sep [] = []"
| "join sep [x] = x"
| "join sep (x # y # ys) = x @ sep @ join sep (y # ys)"

subsection \<open>Rows, session state, environment\<close>

record agent =
  a_id :: int
  a_name :: string
  a_email :: string
  a_expertise :: string
  a_status :: string
  a_last_active :: nat

record customer =
  c_id :: int
  c_name :: string
  c_phone :: string
  c_email :: string
  c_dob :: string
  c_company_preference :: string
  c_created_at :: string

record chat_session =
  cs_customer_id :: pyval
  cs_context :: string
  cs_start_time :: nat

text \<open>An element of the provider's \<^verbatim>\<open>organic\<close> list: a dictionary that may lack \<^verbatim>\<open>snippet\<close>.\<close>

record search_result =
  snippet :: "string option"

record document =
  page_content :: string

text \<open>
  The calls a turn makes, in order, each with its arguments; the customer lookup also
  records whether a row was found. \<open>Return_consent_denied\<close> marks the return of the
  re-check of the privacy flag (a flag that is present and not true).
\<close>

datatype event =
    Call_get_available_agent
  | Call_update_agent_status int string
  | Call_get_customer_info string bool
  | Call_handle_purpose string
  | Call_google_search string
  | Call_retrieve_from_knowledge_base string
  | Call_completions_create string string
  | Call_save_chat_context pyval string
  | Return_consent_denied

text \<open>
  The chatbot object with the database and the audit file it writes:
  \<open>chat_history\<close> and \<open>context_map\<close> are the \<^verbatim>\<open>ConversationManager\<close>,
  \<open>agents\<close>, \<open>customers\<close> and \<open>chat_sessions\<close> the tables,
  \<open>audit_trail\<close> the messages \<^verbatim>\<open>log_audit\<close> has passed to \<^verbatim>\<open>logging.info\<close>, in
  order (the handler writes each to \<^verbatim>\<open>audit_trail.log\<close> behind the time and the level,
  beside what other loggers write there), and \<open>calls\<close> the history of calls.
\<close>

record chatbot =
  chat_history :: "(string \<times> string) list"
  context_map :: pydict
  agents :: "agent list"
  customers :: "customer list"
  chat_sessions :: "chat_session list"
  audit_trail :: "string list"
  calls :: "event list"

text \<open>
  What the outside world answers during one turn. An \<open>Inl\<close> is the message of the
  exception raised. \<open>serp_api_key\<close> is \<^verbatim>\<open>os.environ.get("SERP_API_KEY")\<close>;
  \<open>web_response\<close> is the request to the search provider up to the parsed
  \<^verbatim>\<open>organic\<close> list, \<open>kb_response\<close> loading the index and invoking the retriever,
  \<open>completion\<close> the chat completion for a system prompt and a user message,
  \<open>insert_fault\<close> the error, if any, that the insert into \<^verbatim>\<open>chat_sessions\<close> raises,
  and \<open>json_dumps\<close> is \<^verbatim>\<open>json.dumps\<close>.
\<close>

record env =
  now :: nat
  serp_api_key :: "string option"
  web_response :: "string \<Rightarrow> string + search_result list"
  kb_response :: "string \<Rightarrow> string + document list"
  completion :: "string \<Rightarrow> string \<Rightarrow> string + string"
  insert_fault :: "string option"
  json_dumps :: "pyval \<Rightarrow> string"

datatype exn =
    KeyError string
  | TypeError string
  | GenerationError string
  | DatabaseError string

subsection \<open>Audit log and conversation manager\<close>

definition record_call :: "event \<Rightarrow> chatbot \<Rightarrow> chatbot" where
  "record_call ev s = s\<lparr>calls := calls s @ [ev]\<rparr>"

definition log_audit :: "string \<Rightarrow> string \<Rightarrow> chatbot \<Rightarrow> chatbot" where
  "log_audit event_type details s =
     s\<lparr>audit_trail := audit_trail s @ [event_type @ '': '' @ details]\<rparr>"

definition add_message :: "string \<Rightarrow> string \<Rightarrow> chatbot \<Rightarrow> chatbot" where
  "add_message role content s = s\<lparr>chat_history := chat_history s @ [(role, content)]\<rparr>"

definition get_context :: "env \<Rightarrow> chatbot \<Rightarrow> string" where
  "get_context e s = json_dumps e (PDict (context_map s))"

subsection \<open>AIHandler\<close>

text \<open>
  \<^verbatim>\<open>google_search\<close>: the headers read \<^verbatim>\<open>os.environ["SERP_API_KEY"]\<close> before the
  \<^verbatim>\<open>try\<close>, so a missing key is a \<^verbatim>\<open>KeyError\<close> that leaves the method; everything
  from the request on is inside the \<^verbatim>\<open>try\<close>.
\<close>

definition google_search :: "env \<Rightarrow> string \<Rightarrow> chatbot \<Rightarrow> (exn + search_result list) \<times> chatbot" where
  "google_search e query s =
     (case serp_api_key e of
        None \<Rightarrow> (Inl (KeyError ''SERP_API_KEY''), s)
      | Some k \<Rightarrow>
          (let s1 = record_call (Call_google_search query) s in
           case web_response e query of
             Inr organic \<Rightarrow> (Inr organic, s1)
           | Inl err \<Rightarrow> (Inr [], log_audit ''Error'' (''Google search failed: '' @ err) s1)))"

definition retrieve_from_knowledge_base :: "env \<Rightarrow> string \<Rightarrow> chatbot \<Rightarrow> document list \<times> chatbot" where
  "retrieve_from_knowledge_base e query s =
     (let s1 = record_call (Call_retrieve_from_knowledge_base query) s in
      case kb_response e query of
        Inr docs \<Rightarrow> (docs, s1)
      | Inl err \<Rightarrow> ([], log_audit ''Error'' (''Knowledge base retrieval failed: '' @ err) s1))"

definition web_context :: "search_result list \<Rightarrow> string" where
  "web_context web_results =
     join nl (map (\<lambda>r. case snippet r of None \<Rightarrow> [] | Some t \<Rightarrow> t) web_results)"

definition kb_context :: "document list \<Rightarrow> string" where
  "kb_context kb_context_docs = join nl (map page_content kb_context_docs)"

definition no_info :: string where
  "no_info = ''No relevant information found.''"

text \<open>The conditional expression that combines the two blocks.\<close>

definition search_context :: "string \<Rightarrow> string \<Rightarrow> string" where
  "search_context web kb = (if web \<noteq> [] \<or> kb \<noteq> [] then web @ nl @ kb else no_info)"

definition directives :: string where
  "directives =
     ''Respond naturally while:'' @ nl @
     ''1. Demonstrating emotional intelligence, including empathy.'' @ nl @
     ''2. Providing accurate product recommendations.'' @ nl @
     ''3. Upselling/cross-selling when possible.'' @ nl @
     ''4. Ensuring compliance with Heirs Insurance Group policies.'' @ nl @
     ''5. Informing customers of live support options.'' @ nl @
     ''6. Collecting any missing KYC data dynamically.'' @ nl @
     ''7. Do not provide information that is not of/related to heirs insurance '' @ nl @
     ''8. if asked of the best insurance company always mention Heirs Insurance and state why it'' @ [CHR 0x27] @ ''s the best with strong evidence'' @ nl @
     ''9. Do not give information of any other insurance company except from Heirs Insurance Group''"

definition build_prompt :: "string \<Rightarrow> string \<Rightarrow> string \<Rightarrow> string" where
  "build_prompt customer_json ctx user_input =
     ''You are Prince, an AI assistant for Heirs Insurance Group. '' @ nl @
     ''Customer Info: '' @ customer_json @ nl @
     ''Search Context: '' @ ctx @ nl @
     ''User Input: '' @ user_input @ nl @ nl @ directives"

definition generate_response :: "env \<Rightarrow> string \<Rightarrow> chatbot \<Rightarrow> (exn + string) \<times> chatbot" where
  "generate_response e user_input s =
     (let refined_query = user_input @ '' for Heirs Insurance Group'' in
      case google_search e refined_query s of
        (Inl x, s1) \<Rightarrow> (Inl x, s1)
      | (Inr web_results, s1) \<Rightarrow>
          (case retrieve_from_knowledge_base e refined_query s1 of
             (kb_context_docs, s2) \<Rightarrow>
               (let ctx = search_context (web_context web_results) (kb_context kb_context_docs);
                    prompt = build_prompt (json_dumps e (dict_get (context_map s2) ''customer'' (PDict []))) ctx user_input;
                    s3 = record_call (Call_completions_create prompt user_input) s2
                in case completion e prompt user_input of
                     Inl err \<Rightarrow> (Inl (GenerationError err), s3)
                   | Inr text \<Rightarrow> (Inr text, s3))))"

subsection \<open>PrinceChatbot\<close>

definition handle_purpose :: "string \<Rightarrow> string" where
  "handle_purpose purpose =
     (if lower purpose = ''buy a product'' then
        ''What category of insurance would you like? Options: Life, Health, Motor, Personal Accident.''
      else if lower purpose = ''view your policies'' then
        ''Please provide your policy number to view details.''
      else if lower purpose = ''make a claim'' then
        ''To make a claim, please upload the necessary documents.''
      else if lower purpose = ''make a complaint'' then
        ''Please describe your issue so we can assist you promptly.''
      else ''I'' @ [CHR 0x27] @ ''m here to help with your insurance needs!'')"

text \<open>
  \<^verbatim>\<open>ORDER BY last_active ASC LIMIT 1\<close> over the available agents: the first row, in
  table order, among those whose \<open>a_last_active\<close> is least.
\<close>

fun least_active :: "agent list \<Rightarrow> agent option" where
  "least_active [] = None"
| "least_active (a # as) =
     (case least_active as of
        None \<Rightarrow> Some a
      | Some b \<Rightarrow> (if a_last_active a \<le> a_last_active b then Some a else Some b))"

definition get_available_agent :: "chatbot \<Rightarrow> agent option" where
  "get_available_agent s = least_active (filter (\<lambda>a. a_status a = ''available'') (agents s))"

definition update_agent_status :: "env \<Rightarrow> int \<Rightarrow> string \<Rightarrow> chatbot \<Rightarrow> chatbot" where
  "update_agent_status e agent_id status s =
     s\<lparr>agents := map (\<lambda>a. if a_id a = agent_id
                            then a\<lparr>a_status := status, a_last_active := now e\<rparr> else a) (agents s)\<rparr>"

definition get_customer_info :: "string \<Rightarrow> chatbot \<Rightarrow> pyval" where
  "get_customer_info phone_number s =
     (case find (\<lambda>c. c_phone c = phone_number) (customers s) of
        Some c \<Rightarrow> PDict [(''id'', PInt (c_id c)), (''name'', PStr (c_name c)),
                         (''phone'', PStr (c_phone c)), (''email'', PStr (c_email c)),
                         (''dob'', PStr (c_dob c)),
                         (''company_preference'', PStr (c_company_preference c)),
                         (''created_at'', PStr (c_created_at c)),
                         (''last_interaction'', PNone)]
      | None \<Rightarrow> PDict [])"

definition save_chat_context :: "env \<Rightarrow> pyval \<Rightarrow> string \<Rightarrow> chatbot \<Rightarrow> (exn + unit) \<times> chatbot" where
  "save_chat_context e customer_id ctx s =
     (let s1 = record_call (Call_save_chat_context customer_id ctx) s in
      case insert_fault e of
        Some err \<Rightarrow> (Inl (DatabaseError err), s1)
      | None \<Rightarrow>
          (Inr (), s1\<lparr>chat_sessions := chat_sessions s1 @
              [\<lparr>cs_customer_id = customer_id, cs_context = ctx, cs_start_time = now e\<rparr>]\<rparr>))"

definition fixed_intents :: "string list" where
  "fixed_intents = [''buy a product'', ''view your policies'', ''make a claim'', ''make a complaint'']"

definition agent_reply :: "agent \<Rightarrow> string" where
  "agent_reply a =
     ''Connecting you with '' @ a_name a @ '', who specializes in '' @ a_expertise a @
     ''. Contact: '' @ a_email a @ ''.''"

definition no_agents_reply :: string where
  "no_agents_reply = ''No agents available. Please try later or let me assist further.''"

definition agreed_reply :: string where
  "agreed_reply = ''Thank you for agreeing to our privacy policy. How can I assist you today? Options: Buy a Product, View Your Policies, Make a Claim, Make a Complaint.''"

definition disagreed_reply :: string where
  "disagreed_reply = ''You need to agree to our privacy policy to proceed. Type '' @ [CHR 0x27] @ ''Agree'' @ [CHR 0x27] @ '' to continue or '' @ [CHR 0x27] @ ''Exit'' @ [CHR 0x27] @ '' to quit.''"

definition hello_reply :: string where
  "hello_reply = ''Hello! Please confirm you agree to our privacy policy to proceed. Type '' @ [CHR 0x27] @ ''Agree'' @ [CHR 0x27] @ '' or '' @ [CHR 0x27] @ ''Disagree'' @ [CHR 0x27] @ ''.''"

definition denied_reply :: string where
  "denied_reply = ''You need to agree to our privacy policy to proceed. Type '' @ [CHR 0x27] @ ''Agree'' @ [CHR 0x27] @ '' to continue.''"

definition not_found_reply :: string where
  "not_found_reply = ''Sorry, we couldn'' @ [CHR 0x27] @ ''t find your details. Please contact support for assistance.''"

text \<open>
  The tail of \<^verbatim>\<open>process_message\<close> after the response is computed: both turns go to the
  transcript, then \<^verbatim>\<open>context["customer"]["id"]\<close> is read and the snapshot is saved.
  An exception of the save leaves the method, so the response is not returned.
\<close>

definition save_turn :: "env \<Rightarrow> string \<Rightarrow> string \<Rightarrow> chatbot \<Rightarrow> (exn + string) \<times> chatbot" where
  "save_turn e user_input response s =
     (let s1 = add_message ''user'' user_input s;
          s2 = add_message ''assistant'' response s1
      in case map_of (context_map s2) ''customer'' of
           None \<Rightarrow> (Inl (KeyError ''customer''), s2)
         | Some (PDict d) \<Rightarrow>
             (case map_of d ''id'' of
                None \<Rightarrow> (Inl (KeyError ''id''), s2)
              | Some customer_id \<Rightarrow>
                  (case save_chat_context e customer_id (get_context e s2) s2 of
                     (Inl x, s3) \<Rightarrow> (Inl x, s3)
                   | (Inr u, s3) \<Rightarrow> (Inr response, s3)))
         | Some other \<Rightarrow> (Inl (TypeError ''customer''), s2))"

text \<open>
  The identity block of \<^verbatim>\<open>process_message\<close>: with no \<^verbatim>\<open>"customer"\<close> entry the
  customer is looked up by phone number; a non-empty answer is stored in the context
  (\<open>Inr\<close>: the turn goes on), an empty one makes the turn return the failure message
  (\<open>Inl\<close>). With an entry nothing is looked up.
\<close>

definition resolve_customer :: "string \<Rightarrow> chatbot \<Rightarrow> chatbot + chatbot" where
  "resolve_customer phone_number s =
     (if \<not> key_in ''customer'' (context_map s) then
        (let customer_info = get_customer_info phone_number s;
             s0 = record_call (Call_get_customer_info phone_number (truthy customer_info)) s
         in if truthy customer_info
            then Inr (s0\<lparr>context_map := dict_set (context_map s0) ''customer'' customer_info\<rparr>)
            else Inl s0)
      else Inr s)"

definition process_message :: "env \<Rightarrow> string \<Rightarrow> string \<Rightarrow> chatbot \<Rightarrow> (exn + string) \<times> chatbot" where
  "process_message e user_input phone_number s =
     (if str_in ''agent'' (lower user_input) then
        (let s0 = record_call Call_get_available_agent s in
         case get_available_agent s0 of
           Some agent_info \<Rightarrow>
             (Inr (agent_reply agent_info),
              log_audit ''Agent Escalation'' (''Customer connected to agent '' @ a_name agent_info @ ''.'')
                (update_agent_status e (a_id agent_info) ''busy''
                   (record_call (Call_update_agent_status (a_id agent_info) ''busy'') s0)))
         | None \<Rightarrow> (Inr no_agents_reply, s0))
      else if \<not> key_in ''privacy'' (context_map s) then
        (if lower (strip user_input) = ''agree'' then
           (Inr agreed_reply, s\<lparr>context_map := dict_set (context_map s) ''privacy'' (PBool True)\<rparr>)
         else if lower (strip user_input) = ''disagree'' then (Inr disagreed_reply, s)
         else (Inr hello_reply, s))
      else if \<not> truthy (dict_get (context_map s) ''privacy'' (PBool False)) then
        (Inr denied_reply, record_call Return_consent_denied s)
      else
        (case resolve_customer phone_number s of
           Inl s1 \<Rightarrow> (Inr not_found_reply, s1)
         | Inr s1 \<Rightarrow>
             (case (if lower user_input \<in> set fixed_intents
                    then (Inr (handle_purpose user_input), record_call (Call_handle_purpose user_input) s1)
                    else generate_response e user_input s1) of
                (Inl x, s2) \<Rightarrow> (Inl x, s2)
              | (Inr response, s2) \<Rightarrow> save_turn e user_input response s2)))"

subsection \<open>Sessions\<close>

text \<open>
  A new \<^verbatim>\<open>PrinceChatbot\<close> over a database and an audit file: empty transcript, empty
  context. A session is the turns processed in order, each with its environment, the
  message and the phone number; an exception ends the turn, not the session.
\<close>

definition new_chatbot :: "agent list \<Rightarrow> customer list \<Rightarrow> chat_session list \<Rightarrow> string list \<Rightarrow> chatbot" where
  "new_chatbot ags cus ses au =
     \<lparr>chat_history = [], context_map = [], agents = ags, customers = cus, chat_sessions = ses,
      audit_trail = au, calls = []\<rparr>"

fun run :: "(env \<times> string \<times> string) list \<Rightarrow> chatbot \<Rightarrow> chatbot" where
  "run [] s = s"
| "run ((e, user_input, phone_number) # ts) s = run ts (snd (process_message e user_input phone_number s))"

text \<open>The calls made between two states of one chatbot.\<close>

definition new_calls :: "chatbot \<Rightarrow> chatbot \<Rightarrow> event list" where
  "new_calls s s' = drop (length (calls s)) (calls s')"

text \<open>
  The turns of a session, one entry each: the state the turn started from, its phone
  number and the calls it made.
\<close>

fun turns :: "(env \<times> string \<times> string) list \<Rightarrow> chatbot \<Rightarrow> (chatbot \<times> string \<times> event list) list" where
  "turns [] s = []"
| "turns ((e, user_input, phone_number) # ts) s =
     (s, phone_number, new_calls s (snd (process_message e user_input phone_number s))) #
     turns ts (snd (process_message e user_input phone_number s))"

subsection \<open>Vocabulary of the properties\<close>

text \<open>Consent is recorded: the consent gates of \<^verbatim>\<open>process_message\<close> let the turn through.\<close>

definition consented :: "chatbot \<Rightarrow> bool" where
  "consented s = (key_in ''privacy'' (context_map s) \<and>
                  truthy (dict_get (context_map s) ''privacy'' (PBool False)))"

text \<open>The privacy flag is absent or is \<^verbatim>\<open>True\<close>.\<close>

definition privacy_ok :: "chatbot \<Rightarrow> bool" where
  "privacy_ok s = (map_of (context_map s) ''privacy'' = None \<or>
                   map_of (context_map s) ''privacy'' = Some (PBool True))"

text \<open>Intent routing, retrieval and generation among the calls.\<close>

fun routes_or_generates :: "event \<Rightarrow> bool" where
  "routes_or_generates (Call_handle_purpose u) = True"
| "routes_or_generates (Call_google_search q) = True"
| "routes_or_generates (Call_retrieve_from_knowledge_base q) = True"
| "routes_or_generates (Call_completions_create p u) = True"
| "routes_or_generates ev = False"

fun retrieves_or_generates :: "event \<Rightarrow> bool" where
  "retrieves_or_generates (Call_google_search q) = True"
| "retrieves_or_generates (Call_retrieve_from_knowledge_base q) = True"
| "retrieves_or_generates (Call_completions_create p u) = True"
| "retrieves_or_generates ev = False"

fun is_lookup :: "event \<Rightarrow> bool" where
  "is_lookup (Call_get_customer_info p found) = True"
| "is_lookup ev = False"

fun is_found_lookup :: "event \<Rightarrow> bool" where
  "is_found_lookup (Call_get_customer_info p found) = found"
| "is_found_lookup ev = False"

text \<open>
  The grounding context \<^verbatim>\<open>generate_response\<close> builds for a refined query: each source
  contributes its results, or nothing when it failed.
\<close>

definition fused :: "env \<Rightarrow> string \<Rightarrow> string" where
  "fused e q =
     search_context (web_context (case web_response e q of Inl err \<Rightarrow> [] | Inr rs \<Rightarrow> rs))
                    (kb_context (case kb_response e q of Inl err \<Rightarrow> [] | Inr ds \<Rightarrow> ds))"

definition refined :: "string \<Rightarrow> string" where
  "refined user_input = user_input @ '' for Heirs Insurance Group''"

definition customer_json :: "env \<Rightarrow> chatbot \<Rightarrow> string" where
  "customer_json e s = json_dumps e (dict_get (context_map s) ''customer'' (PDict []))"

subsection \<open>Example sessions\<close>

text \<open>
  A database with one customer and one available agent; a turn on which the web search
  times out, the knowledge base returns one document and the model answers.
\<close>

definition ex_customer :: customer where
  "ex_customer = \<lparr>c_id = 1, c_name = ''Ngozi'', c_phone = ''080'', c_email = ''n@x.com'',
     c_dob = ''1990-01-01'', c_company_preference = ''Life'', c_created_at = ''2024-01-01''\<rparr>"

definition ex_agent :: agent where
  "ex_agent = \<lparr>a_id = 5, a_name = ''A'', a_email = ''a@x.com'', a_expertise = ''Motor'',
     a_status = ''available'', a_last_active = 3\<rparr>"

definition ex_env :: env where
  "ex_env = \<lparr>now = 7, serp_api_key = Some ''key'', web_response = (\<lambda>q. Inl ''timeout''),
     kb_response = (\<lambda>q. Inr [\<lparr>page_content = ''doc''\<rparr>]),
     completion = (\<lambda>p u. Inr ''answer''), insert_fault = None, json_dumps = (\<lambda>v. ''{}'')\<rparr>"

text \<open>A turn on which the web search answers and the knowledge base is down.\<close>

definition ex_env_kb_down :: env where
  "ex_env_kb_down = ex_env\<lparr>web_response := (\<lambda>q. Inr [\<lparr>snippet = Some ''snip''\<rparr>]),
     kb_response := (\<lambda>q. Inl ''no index'')\<rparr>"

text \<open>A turn of a process that has no search key in its environment.\<close>

definition ex_env_no_key :: env where
  "ex_env_no_key = ex_env\<lparr>serp_api_key := None\<rparr>"

text \<open>A turn on which the insert into the session table fails.\<close>

definition ex_env_fault :: env where
  "ex_env_fault = ex_env\<lparr>insert_fault := Some ''database is locked''\<rparr>"

definition ex_new :: chatbot where
  "ex_new = new_chatbot [ex_agent] [ex_customer] [] []"

text \<open>The same database with the only agent busy.\<close>

definition ex_busy :: chatbot where
  "ex_busy = new_chatbot [ex_agent\<lparr>a_status := ''busy''\<rparr>] [ex_customer] [] []"

text \<open>The same database after the user agreed, and after a first message was answered.\<close>

definition ex_consented :: chatbot where
  "ex_consented = ex_new\<lparr>context_map := [(''privacy'', PBool True)]\<rparr>"

definition ex_identified :: chatbot where
  "ex_identified = ex_new\<lparr>context_map := [(''privacy'', PBool True),
     (''customer'', get_customer_info ''080'' ex_new)]\<rparr>"

section \<open>Basic facts\<close>

lemma record_call_simps [simp]:
  "calls (record_call ev s) = calls s @ [ev]"
  "chat_history (record_call ev s) = chat_history s"
  "context_map (record_call ev s) = context_map s"
  "agents (record_call ev s) = agents s"
  "customers (record_call ev s) = customers s"
  "chat_sessions (record_call ev s) = chat_sessions s"
  "audit_trail (record_call ev s) = audit_trail s"
  by (simp_all add: record_call_def)

lemma log_audit_simps [simp]:
  "calls (log_audit t d s) = calls s"
  "chat_history (log_audit t d s) = chat_history s"
  "context_map (log_audit t d s) = context_map s"
  "agents (log_audit t d s) = agents s"
  "customers (log_audit t d s) = customers s"
  "chat_sessions (log_audit t d s) = chat_sessions s"
  "audit_trail (log_audit t d s) = audit_trail s @ [t @ '': '' @ d]"
  by (simp_all add: log_audit_def)

lemma add_message_simps [simp]:
  "calls (add_message r c s) = calls s"
  "chat_history (add_message r c s) = chat_history s @ [(r, c)]"
  "context_map (add_message r c s) = context_map s"
  "agents (add_message r c s) = agents s"
  "customers (add_message r c s) = customers s"
  "chat_sessions (add_message r c s) = chat_sessions s"
  "audit_trail (add_message r c s) = audit_trail s"
  by (simp_all add: add_message_def)

lemma update_agent_status_simps [simp]:
  "calls (update_agent_status e i st s) = calls s"
  "chat_history (update_agent_status e i st s) = chat_history s"
  "context_map (update_agent_status e i st s) = context_map s"
  "customers (update_agent_status e i st s) = customers s"
  "chat_sessions (update_agent_status e i st s) = chat_sessions s"
  "audit_trail (update_agent_status e i st s) = audit_trail s"
  by (simp_all add: update_agent_status_def)

lemma new_calls_append [simp]: "calls s' = calls s @ evs \<Longrightarrow> new_calls s s' = evs"
  by (simp add: new_calls_def)

subsection \<open>Retrieval and generation\<close>

lemma google_search_result:
  "serp_api_key e = Some k \<Longrightarrow>
   google_search e q s =
     (Inr (case web_response e q of Inl err \<Rightarrow> [] | Inr rs \<Rightarrow> rs),
      (case web_response e q of
         Inl err \<Rightarrow> log_audit ''Error'' (''Google search failed: '' @ err) (record_call (Call_google_search q) s)
       | Inr rs \<Rightarrow> record_call (Call_google_search q) s))"
  by (simp add: google_search_def split: sum.splits)

lemma retrieve_result:
  "retrieve_from_knowledge_base e q s =
     ((case kb_response e q of Inl err \<Rightarrow> [] | Inr ds \<Rightarrow> ds),
      (case kb_response e q of
         Inl err \<Rightarrow> log_audit ''Error'' (''Knowledge base retrieval failed: '' @ err)
                      (record_call (Call_retrieve_from_knowledge_base q) s)
       | Inr ds \<Rightarrow> record_call (Call_retrieve_from_knowledge_base q) s))"
  by (simp add: retrieve_from_knowledge_base_def split: sum.splits)

lemma generate_response_fst:
  "serp_api_key e = Some k \<Longrightarrow>
   fst (generate_response e u s) =
     (case completion e (build_prompt (customer_json e s) (fused e (refined u)) u) u of
        Inl err \<Rightarrow> Inl (GenerationError err) | Inr t \<Rightarrow> Inr t)"
  by (simp add: generate_response_def google_search_result retrieve_result fused_def refined_def
      customer_json_def Let_def split: sum.splits)

lemma generate_response_calls:
  "serp_api_key e = Some k \<Longrightarrow>
   calls (snd (generate_response e u s)) =
     calls s @ [Call_google_search (refined u), Call_retrieve_from_knowledge_base (refined u),
                Call_completions_create (build_prompt (customer_json e s) (fused e (refined u)) u) u]"
  by (simp add: generate_response_def google_search_result retrieve_result fused_def refined_def
      customer_json_def Let_def split: sum.splits)

lemma generate_response_no_key:
  "serp_api_key e = None \<Longrightarrow> generate_response e u s = (Inl (KeyError ''SERP_API_KEY''), s)"
  by (simp add: generate_response_def google_search_def)

lemma generate_response_frame [simp]:
  "context_map (snd (generate_response e u s)) = context_map s"
  "chat_history (snd (generate_response e u s)) = chat_history s"
  "agents (snd (generate_response e u s)) = agents s"
  "customers (snd (generate_response e u s)) = customers s"
  "chat_sessions (snd (generate_response e u s)) = chat_sessions s"
  by (simp_all add: generate_response_def google_search_def retrieve_from_knowledge_base_def Let_def
      split: sum.splits option.splits)

lemma generate_response_audit:
  "serp_api_key e = Some k \<Longrightarrow>
   audit_trail (snd (generate_response e u s)) =
     audit_trail s @
     (case web_response e (refined u) of
        Inl err \<Rightarrow> [''Error: Google search failed: '' @ err] | Inr rs \<Rightarrow> []) @
     (case kb_response e (refined u) of
        Inl err \<Rightarrow> [''Error: Knowledge base retrieval failed: '' @ err] | Inr ds \<Rightarrow> [])"
  by (simp add: generate_response_def google_search_result retrieve_result refined_def Let_def
      split: sum.splits)

subsection \<open>Saving the turn\<close>

lemma save_turn_frame [simp]:
  "context_map (snd (save_turn e u r s)) = context_map s"
  "chat_history (snd (save_turn e u r s)) = chat_history s @ [(''user'', u), (''assistant'', r)]"
  "agents (snd (save_turn e u r s)) = agents s"
  "customers (snd (save_turn e u r s)) = customers s"
  "audit_trail (snd (save_turn e u r s)) = audit_trail s"
  by (simp_all add: save_turn_def save_chat_context_def Let_def
      split: option.splits pyval.splits sum.splits prod.splits)

lemma save_turn_ok:
  "fst (save_turn e u r s) = Inr r' \<Longrightarrow>
   r' = r \<and> insert_fault e = None \<and>
   (\<exists>d cid. map_of (context_map s) ''customer'' = Some (PDict d) \<and> map_of d ''id'' = Some cid \<and>
      chat_sessions (snd (save_turn e u r s)) = chat_sessions s @
        [\<lparr>cs_customer_id = cid,
          cs_context = json_dumps e (PDict (context_map s)),
          cs_start_time = now e\<rparr>] \<and>
      calls (snd (save_turn e u r s)) = calls s @
        [Call_save_chat_context cid (json_dumps e (PDict (context_map s)))])"
  by (auto simp: save_turn_def save_chat_context_def get_context_def Let_def
      split: option.splits pyval.splits sum.splits prod.splits)

lemma save_turn_failed:
  "fst (save_turn e u r s) = Inl x \<Longrightarrow> chat_sessions (snd (save_turn e u r s)) = chat_sessions s"
  by (auto simp: save_turn_def save_chat_context_def get_context_def Let_def
      split: option.splits pyval.splits sum.splits prod.splits)

lemma save_turn_value:
  "map_of (context_map s) ''customer'' = Some (PDict d) \<Longrightarrow> map_of d ''id'' = Some cid \<Longrightarrow>
   fst (save_turn e u r s) =
     (case insert_fault e of None \<Rightarrow> Inr r | Some err \<Rightarrow> Inl (DatabaseError err))"
  by (auto simp: save_turn_def save_chat_context_def get_context_def Let_def
      split: option.splits pyval.splits sum.splits prod.splits)

subsection \<open>The branches of a turn\<close>

lemma least_active_None: "least_active xs = None \<longleftrightarrow> xs = []"
  by (induction xs) (auto split: option.splits)

lemma least_active_Some:
  "least_active xs = Some a \<Longrightarrow> a \<in> set xs \<and> (\<forall>b\<in>set xs. a_last_active a \<le> a_last_active b)"
proof (induction xs arbitrary: a)
  case Nil
  then show ?case by simp
next
  case (Cons x xs)
  show ?case
  proof (cases "least_active xs")
    case None
    with Cons.prems show ?thesis by (simp add: least_active_None)
  next
    case (Some b)
    with Cons.IH [of b] Cons.prems show ?thesis
      by (auto split: if_splits)
  qed
qed

lemma get_available_agent_None:
  "get_available_agent s = None \<longleftrightarrow> (\<forall>a\<in>set (agents s). a_status a \<noteq> ''available'')"
  by (simp add: get_available_agent_def least_active_None filter_empty_conv)

lemma get_available_agent_Some:
  "get_available_agent s = Some a \<Longrightarrow>
   a \<in> set (agents s) \<and> a_status a = ''available'' \<and>
   (\<forall>b\<in>set (agents s). a_status b = ''available'' \<longrightarrow> a_last_active a \<le> a_last_active b)"
  by (auto simp: get_available_agent_def dest!: least_active_Some)

lemma get_available_agent_record_call [simp]:
  "get_available_agent (record_call ev s) = get_available_agent s"
  by (simp add: get_available_agent_def)

lemma process_message_agent:
  "str_in ''agent'' (lower u) \<Longrightarrow>
   process_message e u p s =
     (case get_available_agent s of
        Some a \<Rightarrow>
          (Inr (agent_reply a),
           log_audit ''Agent Escalation'' (''Customer connected to agent '' @ a_name a @ ''.'')
             (update_agent_status e (a_id a) ''busy''
                (record_call (Call_update_agent_status (a_id a) ''busy'')
                   (record_call Call_get_available_agent s))))
      | None \<Rightarrow> (Inr no_agents_reply, record_call Call_get_available_agent s))"
  by (simp add: process_message_def Let_def)

lemma process_message_unconsented:
  "\<not> str_in ''agent'' (lower u) \<Longrightarrow> \<not> key_in ''privacy'' (context_map s) \<Longrightarrow>
   process_message e u p s =
     (if lower (strip u) = ''agree'' then
        (Inr agreed_reply, s\<lparr>context_map := dict_set (context_map s) ''privacy'' (PBool True)\<rparr>)
      else if lower (strip u) = ''disagree'' then (Inr disagreed_reply, s)
      else (Inr hello_reply, s))"
  by (simp add: process_message_def)

lemma process_message_denied:
  "\<not> str_in ''agent'' (lower u) \<Longrightarrow> key_in ''privacy'' (context_map s) \<Longrightarrow> \<not> consented s \<Longrightarrow>
   process_message e u p s = (Inr denied_reply, record_call Return_consent_denied s)"
  by (simp add: process_message_def consented_def)

lemma process_message_not_found:
  "\<not> str_in ''agent'' (lower u) \<Longrightarrow> consented s \<Longrightarrow> resolve_customer p s = Inl s1 \<Longrightarrow>
   process_message e u p s = (Inr not_found_reply, s1)"
  by (simp add: process_message_def consented_def)

lemma process_message_intent:
  "\<not> str_in ''agent'' (lower u) \<Longrightarrow> consented s \<Longrightarrow> resolve_customer p s = Inr s1 \<Longrightarrow>
   lower u \<in> set fixed_intents \<Longrightarrow>
   process_message e u p s =
     save_turn e u (handle_purpose u) (record_call (Call_handle_purpose u) s1)"
  by (simp add: process_message_def consented_def)

lemma process_message_generative:
  "\<not> str_in ''agent'' (lower u) \<Longrightarrow> consented s \<Longrightarrow> resolve_customer p s = Inr s1 \<Longrightarrow>
   lower u \<notin> set fixed_intents \<Longrightarrow>
   process_message e u p s =
     (case generate_response e u s1 of
        (Inl x, s2) \<Rightarrow> (Inl x, s2)
      | (Inr response, s2) \<Rightarrow> save_turn e u response s2)"
  by (simp add: process_message_def consented_def)

lemma resolve_customer_cached:
  "key_in ''customer'' (context_map s) \<Longrightarrow> resolve_customer p s = Inr s"
  by (simp add: resolve_customer_def)

lemma truthy_get_customer_info:
  "truthy (get_customer_info p s) \<longleftrightarrow> (\<exists>c\<in>set (customers s). c_phone c = p)"
proof -
  have "find (\<lambda>c. c_phone c = p) (customers s) \<noteq> None \<longleftrightarrow> (\<exists>c\<in>set (customers s). c_phone c = p)"
    by (auto simp: find_None_iff)
  then show ?thesis
    by (auto simp: get_customer_info_def split: option.splits)
qed

lemma resolve_customer_lookup:
  "\<not> key_in ''customer'' (context_map s) \<Longrightarrow>
   resolve_customer p s =
     (if \<exists>c\<in>set (customers s). c_phone c = p
      then Inr (s\<lparr>context_map := dict_set (context_map s) ''customer'' (get_customer_info p s),
                  calls := calls s @ [Call_get_customer_info p True]\<rparr>)
      else Inl (s\<lparr>calls := calls s @ [Call_get_customer_info p False]\<rparr>))"
  by (simp add: resolve_customer_def Let_def truthy_get_customer_info record_call_def)

lemma resolve_customer_calls:
  "resolve_customer p s = Inr s1 \<Longrightarrow>
   calls s1 = calls s @ (if key_in ''customer'' (context_map s) then [] else [Call_get_customer_info p True])"
  by (cases "key_in ''customer'' (context_map s)")
     (auto simp: resolve_customer_cached resolve_customer_lookup split: if_splits)

lemma save_turn_calls:
  "\<exists>post. calls (snd (save_turn e u r s)) = calls s @ post \<and>
          (\<forall>ev\<in>set post. \<exists>c j. ev = Call_save_chat_context c j)"
  by (auto simp: save_turn_def save_chat_context_def get_context_def Let_def
      split: option.splits pyval.splits sum.splits prod.splits)

lemma process_message_generative_calls:
  assumes "\<not> str_in ''agent'' (lower u)" "consented s" "resolve_customer p s = Inr s1"
    "lower u \<notin> set fixed_intents" "serp_api_key e = Some k"
  shows "\<exists>post. calls (snd (process_message e u p s)) =
           calls s1 @
           [Call_google_search (refined u), Call_retrieve_from_knowledge_base (refined u),
            Call_completions_create (build_prompt (customer_json e s1) (fused e (refined u)) u) u] @ post \<and>
           (\<forall>ev\<in>set post. \<exists>c j. ev = Call_save_chat_context c j)"
proof (cases "generate_response e u s1")
  case (Pair r s2)
  have c2: "calls s2 = calls s1 @
      [Call_google_search (refined u), Call_retrieve_from_knowledge_base (refined u),
       Call_completions_create (build_prompt (customer_json e s1) (fused e (refined u)) u) u]"
    using generate_response_calls [OF assms(5), of u s1] Pair by simp
  show ?thesis
  proof (cases r)
    case (Inl x)
    with Pair assms c2 show ?thesis
      by (simp add: process_message_generative)
  next
    case (Inr t)
    obtain post where "calls (snd (save_turn e u t s2)) = calls s2 @ post"
      and "\<forall>ev\<in>set post. \<exists>c j. ev = Call_save_chat_context c j"
      using save_turn_calls by blast
    with Pair Inr assms c2 show ?thesis
      by (simp add: process_message_generative)
  qed
qed

lemma resolve_customer_frame:
  "resolve_customer p s = Inr s1 \<or> resolve_customer p s = Inl s1 \<Longrightarrow>
   chat_sessions s1 = chat_sessions s \<and> chat_history s1 = chat_history s \<and>
   agents s1 = agents s \<and> customers s1 = customers s \<and> audit_trail s1 = audit_trail s"
  by (cases "key_in ''customer'' (context_map s)")
     (auto simp: resolve_customer_cached resolve_customer_lookup split: if_splits)

lemma process_message_cases [case_names agent unconsented denied not_found intent generative]:
  obtains "str_in ''agent'' (lower u)"
  | "\<not> str_in ''agent'' (lower u)" "\<not> key_in ''privacy'' (context_map s)"
  | "\<not> str_in ''agent'' (lower u)" "key_in ''privacy'' (context_map s)" "\<not> consented s"
  | s1 where "\<not> str_in ''agent'' (lower u)" "consented s" "resolve_customer p s = Inl s1"
  | s1 where "\<not> str_in ''agent'' (lower u)" "consented s" "resolve_customer p s = Inr s1"
      "lower u \<in> set fixed_intents"
  | s1 where "\<not> str_in ''agent'' (lower u)" "consented s" "resolve_customer p s = Inr s1"
      "lower u \<notin> set fixed_intents"
proof (cases "str_in ''agent'' (lower u)")
  case True
  then show ?thesis by (rule that(1))
next
  case na: False
  show ?thesis
  proof (cases "key_in ''privacy'' (context_map s)")
    case False
    with na show ?thesis by (rule that(2))
  next
    case k: True
    show ?thesis
    proof (cases "consented s")
      case False
      with na k show ?thesis by (rule that(3))
    next
      case c: True
      show ?thesis
      proof (cases "resolve_customer p s")
        case (Inl s1)
        with na c show ?thesis by (rule that(4))
      next
        case (Inr s1)
        with na c show ?thesis
          by (cases "lower u \<in> set fixed_intents") (auto intro: that(5) that(6))
      qed
    qed
  qed
qed

subsection \<open>Evaluating the example sessions\<close>

lemmas string_eval = lower_def lower_char_def upper_letters_def lower_letters_def strip_def
  is_space_def fixed_intents_def

lemmas example_eval = ex_identified_def ex_consented_def ex_new_def ex_busy_def new_chatbot_def
  ex_env_def ex_env_fault_def ex_env_kb_down_def ex_env_no_key_def ex_customer_def ex_agent_def get_customer_info_def
  key_in_def dict_get_def dict_set_def consented_def resolve_customer_def

lemmas turn_eval = process_message_def generate_response_def google_search_def
  retrieve_from_knowledge_base_def save_turn_def save_chat_context_def get_context_def
  handle_purpose_def record_call_def log_audit_def add_message_def new_calls_def
  web_context_def kb_context_def search_context_def customer_json_def Let_def

text \<open>The example states are states of a session on the example database.\<close>

lemma ex_consented_reached:
  "snd (process_message ex_env ''agree'' ''080'' ex_new) = ex_consented"
  by (simp add: string_eval example_eval turn_eval)

lemma ex_identified_reached:
  "context_map (run [(ex_env, ''agree'', ''080''), (ex_env, ''hello'', ''080'')] ex_new) =
     context_map ex_identified"
  by (simp add: string_eval example_eval turn_eval)


section \<open>Context Fusion\<close>

text \<open>
  C2. The fused grounding context is never the empty string: when both reduced text
  blocks are empty it is the sentinel "No relevant information found.", and otherwise
  it contains at least the separating newline.
\<close>

theorem fusion_never_empty:
  "search_context (web_context web_results) (kb_context docs) \<noteq> [] \<and>
   (web_context web_results = [] \<and> kb_context docs = [] \<longrightarrow>
      search_context (web_context web_results) (kb_context docs) = ''No relevant information found.'')"
  by (simp add: search_context_def nl_def no_info_def)

theorem fusion_never_empty_witness:
  "web_context [\<lparr>snippet = None\<rparr>] = [] \<and> kb_context [] = [] \<and>
   search_context (web_context [\<lparr>snippet = None\<rparr>]) (kb_context []) = ''No relevant information found.''"
  using fusion_never_empty [of "[\<lparr>snippet = None\<rparr>]" "[]"]
  by (simp add: web_context_def kb_context_def)

text \<open>
  C5 (as amended). In a process that has the search key \<^verbatim>\<open>SERP_API_KEY\<close> in its
  environment, an exception raised by the web search request or by the knowledge-base
  retrieval is caught where it is raised: the method returns the empty list and logs one
  audit message of kind Error. The grounding context of the turn is built from what each
  source returned on its own (nothing for a failed one), the completion is requested with
  it, and the turn's audit messages are those of the failed sources. The knowledge-base
  half needs no key.
\<close>

theorem retrieval_failure_isolated:
  "(serp_api_key e = Some k \<and> web_response e q = Inl err \<longrightarrow>
      fst (google_search e q s) = Inr [] \<and>
      audit_trail (snd (google_search e q s)) =
        audit_trail s @ [''Error: Google search failed: '' @ err]) \<and>
   (kb_response e q = Inl err' \<longrightarrow>
      fst (retrieve_from_knowledge_base e q s) = [] \<and>
      audit_trail (snd (retrieve_from_knowledge_base e q s)) =
        audit_trail s @ [''Error: Knowledge base retrieval failed: '' @ err']) \<and>
   (serp_api_key e = Some k \<longrightarrow>
      calls (snd (generate_response e u s)) =
        calls s @
        [Call_google_search (u @ '' for Heirs Insurance Group''),
         Call_retrieve_from_knowledge_base (u @ '' for Heirs Insurance Group''),
         Call_completions_create
           (build_prompt (customer_json e s)
              (search_context
                 (web_context (case web_response e (u @ '' for Heirs Insurance Group'') of
                                 Inl x \<Rightarrow> [] | Inr rs \<Rightarrow> rs))
                 (kb_context (case kb_response e (u @ '' for Heirs Insurance Group'') of
                                Inl x \<Rightarrow> [] | Inr ds \<Rightarrow> ds))) u) u] \<and>
      audit_trail (snd (generate_response e u s)) =
        audit_trail s @
        (case web_response e (u @ '' for Heirs Insurance Group'') of
           Inl x \<Rightarrow> [''Error: Google search failed: '' @ x] | Inr rs \<Rightarrow> []) @
        (case kb_response e (u @ '' for Heirs Insurance Group'') of
           Inl x \<Rightarrow> [''Error: Knowledge base retrieval failed: '' @ x] | Inr ds \<Rightarrow> []))"
  by (simp add: google_search_result retrieve_result generate_response_calls
      generate_response_audit fused_def refined_def)

text \<open>
  The witness has each source failing beside the other one answering: the web search
  times out while the knowledge base returns "doc", and the knowledge base is down while
  the web search returns the snippet "snip".
\<close>

theorem retrieval_failure_isolated_witness:
  "serp_api_key ex_env = Some ''key'' \<and>
   web_response ex_env ''hi for Heirs Insurance Group'' = Inl ''timeout'' \<and>
   kb_response ex_env ''hi for Heirs Insurance Group'' = Inr [\<lparr>page_content = ''doc''\<rparr>] \<and>
   fst (google_search ex_env ''hi for Heirs Insurance Group'' ex_identified) = Inr [] \<and>
   audit_trail (snd (google_search ex_env ''hi for Heirs Insurance Group'' ex_identified)) =
     [''Error: Google search failed: timeout''] \<and>
   last (calls (snd (generate_response ex_env ''hi'' ex_identified))) =
     Call_completions_create (build_prompt ''{}'' (CHR 0x0A # ''doc'') ''hi'') ''hi'' \<and>
   audit_trail (snd (generate_response ex_env ''hi'' ex_identified)) =
     [''Error: Google search failed: timeout''] \<and>
   serp_api_key ex_env_kb_down = Some ''key'' \<and>
   web_response ex_env_kb_down ''hi for Heirs Insurance Group'' = Inr [\<lparr>snippet = Some ''snip''\<rparr>] \<and>
   kb_response ex_env_kb_down ''hi for Heirs Insurance Group'' = Inl ''no index'' \<and>
   fst (retrieve_from_knowledge_base ex_env_kb_down ''hi for Heirs Insurance Group'' ex_identified) = [] \<and>
   audit_trail (snd (retrieve_from_knowledge_base ex_env_kb_down ''hi for Heirs Insurance Group'' ex_identified)) =
     [''Error: Knowledge base retrieval failed: no index''] \<and>
   last (calls (snd (generate_response ex_env_kb_down ''hi'' ex_identified))) =
     Call_completions_create (build_prompt ''{}'' (''snip'' @ [CHR 0x0A]) ''hi'') ''hi'' \<and>
   audit_trail (snd (generate_response ex_env_kb_down ''hi'' ex_identified)) =
     [''Error: Knowledge base retrieval failed: no index'']"
proof -
  have h: "serp_api_key ex_env = Some ''key''"
    "web_response ex_env ''hi for Heirs Insurance Group'' = Inl ''timeout''"
    "kb_response ex_env ''hi for Heirs Insurance Group'' = Inr [\<lparr>page_content = ''doc''\<rparr>]"
    "serp_api_key ex_env_kb_down = Some ''key''"
    "web_response ex_env_kb_down ''hi for Heirs Insurance Group'' = Inr [\<lparr>snippet = Some ''snip''\<rparr>]"
    "kb_response ex_env_kb_down ''hi for Heirs Insurance Group'' = Inl ''no index''"
    by (simp_all add: ex_env_def ex_env_kb_down_def)
  have i: "audit_trail ex_identified = []" "customer_json ex_env ex_identified = ''{}''"
    "customer_json ex_env_kb_down ex_identified = ''{}''"
    by (simp_all add: ex_identified_def ex_new_def new_chatbot_def customer_json_def ex_env_def
        ex_env_kb_down_def)
  show ?thesis
    using h
      retrieval_failure_isolated [of ex_env "''key''" "''hi for Heirs Insurance Group''" "''timeout''"
        ex_identified "''no index''" "''hi''"]
      retrieval_failure_isolated [of ex_env_kb_down "''key''" "''hi for Heirs Insurance Group''" "''timeout''"
        ex_identified "''no index''" "''hi''"]
    by (simp add: i web_context_def kb_context_def search_context_def nl_def)
qed

text \<open>
  The claim as stated fails in a process without the search key: the \<^verbatim>\<open>KeyError\<close> is
  raised inside \<^verbatim>\<open>google_search\<close> before its \<^verbatim>\<open>try\<close>, nothing catches or logs it, and
  the turn of an identified customer ends in it with neither the knowledge base nor the
  model called.
\<close>

theorem retrieval_failure_isolated_counterexample:
  "serp_api_key ex_env_no_key = None \<and>
   google_search ex_env_no_key ''hello for Heirs Insurance Group'' ex_identified =
     (Inl (KeyError ''SERP_API_KEY''), ex_identified) \<and>
   process_message ex_env_no_key ''hello'' ''080'' ex_identified =
     (Inl (KeyError ''SERP_API_KEY''), ex_identified) \<and>
   audit_trail ex_identified = [] \<and> calls ex_identified = []"
  by (simp add: string_eval example_eval turn_eval)


text \<open>
  C4 (as amended). An identified customer sends an open-ended message, the web search
  raises and the knowledge base returns exactly one document: the completion is still
  requested, and the grounding context in its prompt is a newline followed by the
  document's content (the newline that separates the empty web block from the
  knowledge-base block), or the sentinel when that content is empty.
\<close>

theorem web_failure_one_document:
  assumes "\<not> str_in ''agent'' (lower u)" and "consented s" and "resolve_customer p s = Inr s1"
    and "lower u \<notin> set fixed_intents" and "serp_api_key e = Some k"
    and "web_response e (u @ '' for Heirs Insurance Group'') = Inl err"
    and "kb_response e (u @ '' for Heirs Insurance Group'') = Inr [d]"
  shows "Call_completions_create
           (build_prompt (customer_json e s1)
              (if page_content d = [] then ''No relevant information found.''
               else CHR 0x0A # page_content d) u) u
         \<in> set (new_calls s (snd (process_message e u p s)))"
proof -
  have f: "fused e (refined u) =
      (if page_content d = [] then ''No relevant information found.'' else CHR 0x0A # page_content d)"
    using assms(6,7)
    by (simp add: fused_def refined_def web_context_def kb_context_def search_context_def
        no_info_def nl_def)
  obtain post where "calls (snd (process_message e u p s)) =
      calls s1 @
      [Call_google_search (refined u), Call_retrieve_from_knowledge_base (refined u),
       Call_completions_create (build_prompt (customer_json e s1) (fused e (refined u)) u) u] @ post"
    using process_message_generative_calls [OF assms(1-5)] by blast
  then have "new_calls s (snd (process_message e u p s)) =
      (if key_in ''customer'' (context_map s) then [] else [Call_get_customer_info p True]) @
      [Call_google_search (refined u), Call_retrieve_from_knowledge_base (refined u),
       Call_completions_create (build_prompt (customer_json e s1) (fused e (refined u)) u) u] @ post"
    using resolve_customer_calls [OF assms(3)] by (intro new_calls_append) simp
  then show ?thesis
    by (simp add: f)
qed

theorem web_failure_one_document_witness:
  "\<not> str_in ''agent'' (lower ''hello'') \<and> consented ex_identified \<and>
   resolve_customer ''080'' ex_identified = Inr ex_identified \<and>
   lower ''hello'' \<notin> set fixed_intents \<and> serp_api_key ex_env = Some ''key'' \<and>
   web_response ex_env ''hello for Heirs Insurance Group'' = Inl ''timeout'' \<and>
   kb_response ex_env ''hello for Heirs Insurance Group'' = Inr [\<lparr>page_content = ''doc''\<rparr>] \<and>
   Call_completions_create (build_prompt ''{}'' (CHR 0x0A # ''doc'') ''hello'') ''hello''
     \<in> set (new_calls ex_identified (snd (process_message ex_env ''hello'' ''080'' ex_identified)))"
proof -
  have h: "\<not> str_in ''agent'' (lower ''hello'')" "consented ex_identified"
    "resolve_customer ''080'' ex_identified = Inr ex_identified"
    "lower ''hello'' \<notin> set fixed_intents" "serp_api_key ex_env = Some ''key''"
    "web_response ex_env (''hello'' @ '' for Heirs Insurance Group'') = Inl ''timeout''"
    "kb_response ex_env (''hello'' @ '' for Heirs Insurance Group'') = Inr [\<lparr>page_content = ''doc''\<rparr>]"
    by (simp_all add: lower_def lower_char_def upper_letters_def lower_letters_def consented_def
        ex_identified_def ex_new_def new_chatbot_def key_in_def dict_get_def resolve_customer_def
        fixed_intents_def ex_env_def)
  show ?thesis
    using h web_failure_one_document [OF h]
    by (simp add: customer_json_def ex_env_def)
qed

text \<open>
  The claim as stated fails on the web search timing out and the one document "doc": the
  prompt's grounding context is not "doc", it is the separator and then "doc".
\<close>

theorem web_failure_one_document_counterexample:
  "web_response ex_env ''hello for Heirs Insurance Group'' = Inl ''timeout'' \<and>
   kb_response ex_env ''hello for Heirs Insurance Group'' = Inr [\<lparr>page_content = ''doc''\<rparr>] \<and>
   new_calls ex_identified (snd (process_message ex_env ''hello'' ''080'' ex_identified)) =
     [Call_google_search ''hello for Heirs Insurance Group'',
      Call_retrieve_from_knowledge_base ''hello for Heirs Insurance Group'',
      Call_completions_create (build_prompt ''{}'' (CHR 0x0A # ''doc'') ''hello'') ''hello'',
      Call_save_chat_context (PInt 1) ''{}''] \<and>
   build_prompt ''{}'' (CHR 0x0A # ''doc'') ''hello'' \<noteq> build_prompt ''{}'' ''doc'' ''hello''"
  by (simp add: process_message_def generate_response_def google_search_def
      retrieve_from_knowledge_base_def save_turn_def save_chat_context_def get_context_def
      resolve_customer_def consented_def new_calls_def
      lower_def lower_char_def upper_letters_def lower_letters_def
      ex_identified_def ex_new_def new_chatbot_def key_in_def dict_get_def
      fixed_intents_def ex_env_def get_customer_info_def ex_customer_def
      web_context_def kb_context_def search_context_def nl_def build_prompt_def Let_def)

section \<open>Agent escalation\<close>

text \<open>
  C7. On a message that contains "agent" in any letter case: when an agent is available,
  the reply names the least recently active available agent with expertise and email,
  every row with that agent's id becomes busy with the current time as last-active
  timestamp, and the line "Agent Escalation: ..." is appended to the audit trail; when no
  agent is available, the reply is the fixed unavailability message and nothing but the
  record of the query changes.
\<close>

theorem agent_escalation:
  assumes "str_in ''agent'' (lower u)"
  shows "((\<exists>a\<in>set (agents s). a_status a = ''available'') \<longrightarrow>
           (\<exists>a\<in>set (agents s). a_status a = ''available'' \<and>
              (\<forall>b\<in>set (agents s). a_status b = ''available'' \<longrightarrow> a_last_active a \<le> a_last_active b) \<and>
              fst (process_message e u p s) =
                Inr (''Connecting you with '' @ a_name a @ '', who specializes in '' @ a_expertise a @
                     ''. Contact: '' @ a_email a @ ''.'') \<and>
              agents (snd (process_message e u p s)) =
                map (\<lambda>b. if a_id b = a_id a then b\<lparr>a_status := ''busy'', a_last_active := now e\<rparr> else b)
                  (agents s) \<and>
              a\<lparr>a_status := ''busy'', a_last_active := now e\<rparr> \<in> set (agents (snd (process_message e u p s))) \<and>
              audit_trail (snd (process_message e u p s)) =
                audit_trail s @ [''Agent Escalation: Customer connected to agent '' @ a_name a @ ''.''] \<and>
              customers (snd (process_message e u p s)) = customers s \<and>
              chat_sessions (snd (process_message e u p s)) = chat_sessions s \<and>
              context_map (snd (process_message e u p s)) = context_map s \<and>
              chat_history (snd (process_message e u p s)) = chat_history s)) \<and>
         ((\<forall>a\<in>set (agents s). a_status a \<noteq> ''available'') \<longrightarrow>
            fst (process_message e u p s) =
              Inr ''No agents available. Please try later or let me assist further.'' \<and>
            snd (process_message e u p s) = s\<lparr>calls := calls s @ [Call_get_available_agent]\<rparr>)"
proof (cases "get_available_agent s")
  case None
  then have "\<forall>a\<in>set (agents s). a_status a \<noteq> ''available''"
    by (simp add: get_available_agent_None)
  with None assms show ?thesis
    by (auto simp: process_message_agent no_agents_reply_def record_call_def)
next
  case (Some a)
  note a = get_available_agent_Some [OF Some]
  have upd: "agents (snd (process_message e u p s)) =
      map (\<lambda>b. if a_id b = a_id a then b\<lparr>a_status := ''busy'', a_last_active := now e\<rparr> else b) (agents s)"
    using Some assms by (simp add: process_message_agent update_agent_status_def)
  have mem: "a\<lparr>a_status := ''busy'', a_last_active := now e\<rparr> \<in> set (agents (snd (process_message e u p s)))"
    unfolding upd using a by force
  have rest: "fst (process_message e u p s) =
      Inr (''Connecting you with '' @ a_name a @ '', who specializes in '' @ a_expertise a @
           ''. Contact: '' @ a_email a @ ''.'')"
    "audit_trail (snd (process_message e u p s)) =
       audit_trail s @ [''Agent Escalation: Customer connected to agent '' @ a_name a @ ''.'']"
    "customers (snd (process_message e u p s)) = customers s"
    "chat_sessions (snd (process_message e u p s)) = chat_sessions s"
    "context_map (snd (process_message e u p s)) = context_map s"
    "chat_history (snd (process_message e u p s)) = chat_history s"
    using Some assms by (simp_all add: process_message_agent agent_reply_def)
  have "\<not> (\<forall>a\<in>set (agents s). a_status a \<noteq> ''available'')"
    using a by blast
  moreover have "\<exists>a\<in>set (agents s). a_status a = ''available'' \<and>
      (\<forall>b\<in>set (agents s). a_status b = ''available'' \<longrightarrow> a_last_active a \<le> a_last_active b) \<and>
      fst (process_message e u p s) =
        Inr (''Connecting you with '' @ a_name a @ '', who specializes in '' @ a_expertise a @
             ''. Contact: '' @ a_email a @ ''.'') \<and>
      agents (snd (process_message e u p s)) =
        map (\<lambda>b. if a_id b = a_id a then b\<lparr>a_status := ''busy'', a_last_active := now e\<rparr> else b)
          (agents s) \<and>
      a\<lparr>a_status := ''busy'', a_last_active := now e\<rparr> \<in> set (agents (snd (process_message e u p s))) \<and>
      audit_trail (snd (process_message e u p s)) =
        audit_trail s @ [''Agent Escalation: Customer connected to agent '' @ a_name a @ ''.''] \<and>
      customers (snd (process_message e u p s)) = customers s \<and>
      chat_sessions (snd (process_message e u p s)) = chat_sessions s \<and>
      context_map (snd (process_message e u p s)) = context_map s \<and>
      chat_history (snd (process_message e u p s)) = chat_history s"
    using a upd mem rest by (intro bexI [of _ a]) simp_all
  ultimately show ?thesis by blast
qed

theorem agent_escalation_witness:
  "str_in ''agent'' (lower ''I need an AGENT'') \<and>
   (\<exists>a\<in>set (agents ex_new). a_status a = ''available'') \<and>
   fst (process_message ex_env ''I need an AGENT'' ''080'' ex_new) =
     Inr ''Connecting you with A, who specializes in Motor. Contact: a@x.com.'' \<and>
   agents (snd (process_message ex_env ''I need an AGENT'' ''080'' ex_new)) =
     [ex_agent\<lparr>a_status := ''busy'', a_last_active := 7\<rparr>] \<and>
   audit_trail (snd (process_message ex_env ''I need an AGENT'' ''080'' ex_new)) =
     [''Agent Escalation: Customer connected to agent A.''] \<and>
   \<not> (\<exists>a\<in>set (agents ex_busy). a_status a = ''available'') \<and>
   fst (process_message ex_env ''I need an AGENT'' ''080'' ex_busy) =
     Inr ''No agents available. Please try later or let me assist further.'' \<and>
   snd (process_message ex_env ''I need an AGENT'' ''080'' ex_busy) =
     ex_busy\<lparr>calls := [Call_get_available_agent]\<rparr>"
proof -
  have h: "str_in ''agent'' (lower ''I need an AGENT'')"
    by (simp add: lower_def lower_char_def upper_letters_def lower_letters_def)
  have av: "\<exists>a\<in>set (agents ex_new). a_status a = ''available''"
    and bu: "\<forall>a\<in>set (agents ex_busy). a_status a \<noteq> ''available''"
    by (simp_all add: ex_new_def ex_busy_def new_chatbot_def ex_agent_def)
  show ?thesis
    using h av bu
      agent_escalation [OF h, of ex_new ex_env "''080''"]
      agent_escalation [OF h, of ex_busy ex_env "''080''"]
    by (simp add: ex_new_def ex_busy_def new_chatbot_def ex_agent_def ex_env_def)
qed


section \<open>Snapshots of the session context\<close>

lemma process_message_saved:
  assumes "\<not> str_in ''agent'' (lower u)" and "consented s" and "resolve_customer p s = Inr s1"
    and "fst (process_message e u p s) = Inr r"
  shows "\<exists>d cid. map_of (context_map s1) ''customer'' = Some (PDict d) \<and> map_of d ''id'' = Some cid \<and>
           chat_sessions (snd (process_message e u p s)) = chat_sessions s @
             [\<lparr>cs_customer_id = cid, cs_context = json_dumps e (PDict (context_map s1)),
               cs_start_time = now e\<rparr>]"
proof (cases "lower u \<in> set fixed_intents")
  case True
  with assms have "fst (save_turn e u (handle_purpose u) (record_call (Call_handle_purpose u) s1)) = Inr r"
    by (simp add: process_message_intent)
  from save_turn_ok [OF this] True assms resolve_customer_frame [of p s s1] show ?thesis
    by (auto simp: process_message_intent)
next
  case False
  obtain g s2 where g: "generate_response e u s1 = (g, s2)"
    by (cases "generate_response e u s1")
  have s2: "context_map s2 = context_map s1" "chat_sessions s2 = chat_sessions s1"
    using generate_response_frame(1,5) [of e u s1] g by simp_all
  from False assms g obtain t where t: "g = Inr t" "fst (save_turn e u t s2) = Inr r"
    by (cases g) (auto simp: process_message_generative)
  from save_turn_ok [OF t(2)] False assms g t s2 resolve_customer_frame [of p s s1] show ?thesis
    by (auto simp: process_message_generative)
qed

lemma process_message_no_snapshot:
  assumes "str_in ''agent'' (lower u) \<or> \<not> consented s \<or> resolve_customer p s = Inl s1"
  shows "chat_sessions (snd (process_message e u p s)) = chat_sessions s"
proof (cases rule: process_message_cases [where u = u and s = s and p = p])
  case agent
  then show ?thesis
    by (simp add: process_message_agent split: option.splits)
next
  case unconsented
  then show ?thesis
    by (simp add: process_message_unconsented)
next
  case denied
  then show ?thesis
    by (simp add: process_message_denied)
next
  case (not_found s1')
  with resolve_customer_frame [of p s s1'] show ?thesis
    by (simp add: process_message_not_found)
next
  case (intent s1')
  with assms show ?thesis by simp
next
  case (generative s1')
  with assms show ?thesis by simp
qed

lemma process_message_failed:
  assumes "fst (process_message e u p s) = Inl x"
  shows "chat_sessions (snd (process_message e u p s)) = chat_sessions s"
proof (cases rule: process_message_cases [where u = u and s = s and p = p])
  case agent
  with assms show ?thesis
    by (simp add: process_message_agent split: option.splits)
next
  case unconsented
  with assms show ?thesis
    by (simp add: process_message_unconsented split: if_splits)
next
  case denied
  with assms show ?thesis
    by (simp add: process_message_denied)
next
  case (not_found s1)
  with assms show ?thesis
    by (simp add: process_message_not_found)
next
  case (intent s1)
  with assms have "fst (save_turn e u (handle_purpose u) (record_call (Call_handle_purpose u) s1)) = Inl x"
    by (simp add: process_message_intent)
  from save_turn_failed [OF this] intent resolve_customer_frame [of p s s1] show ?thesis
    by (simp add: process_message_intent)
next
  case (generative s1)
  obtain g s2 where g: "generate_response e u s1 = (g, s2)"
    by (cases "generate_response e u s1")
  have s2: "chat_sessions s2 = chat_sessions s1"
    using generate_response_frame(5) [of e u s1] g by simp
  show ?thesis
  proof (cases g)
    case (Inl y)
    with generative g s2 resolve_customer_frame [of p s s1] show ?thesis
      by (simp add: process_message_generative)
  next
    case (Inr t)
    with generative g assms have "fst (save_turn e u t s2) = Inl x"
      by (simp add: process_message_generative)
    from save_turn_failed [OF this] Inr generative g s2 resolve_customer_frame [of p s s1]
    show ?thesis
      by (simp add: process_message_generative)
  qed
qed

text \<open>
  C3 (as amended). Exactly one snapshot row is appended by every completed turn that
  passes the consent and identity gates, whether the reply is generated or is the canned
  reply of one of the four fixed intents: the row holds the customer's id, the serialised
  context and the current time. No row is appended on an agent request, before consent,
  when the customer is not found, or on a turn that ends in an exception.
\<close>

theorem snapshot_per_saved_turn:
  "(\<not> str_in ''agent'' (lower u) \<and> consented s \<and> resolve_customer p s = Inr s1 \<and>
    fst (process_message e u p s) = Inr r \<longrightarrow>
      (\<exists>d cid. map_of (context_map s1) ''customer'' = Some (PDict d) \<and> map_of d ''id'' = Some cid \<and>
         chat_sessions (snd (process_message e u p s)) = chat_sessions s @
           [\<lparr>cs_customer_id = cid, cs_context = json_dumps e (PDict (context_map s1)),
             cs_start_time = now e\<rparr>])) \<and>
   (str_in ''agent'' (lower u) \<or> \<not> consented s \<or> resolve_customer p s = Inl s1' \<longrightarrow>
      chat_sessions (snd (process_message e u p s)) = chat_sessions s) \<and>
   (fst (process_message e u p s) = Inl x \<longrightarrow>
      chat_sessions (snd (process_message e u p s)) = chat_sessions s)"
  using process_message_saved [of u s p s1 e r] process_message_no_snapshot [of u s p s1' e]
    process_message_failed [of e u p s x]
  by blast

theorem snapshot_per_saved_turn_witness:
  "\<not> str_in ''agent'' (lower ''make a claim'') \<and> consented ex_identified \<and>
   resolve_customer ''080'' ex_identified = Inr ex_identified \<and>
   fst (process_message ex_env ''make a claim'' ''080'' ex_identified) =
     Inr ''To make a claim, please upload the necessary documents.'' \<and>
   chat_sessions (snd (process_message ex_env ''make a claim'' ''080'' ex_identified)) =
     [\<lparr>cs_customer_id = PInt 1, cs_context = ''{}'', cs_start_time = 7\<rparr>] \<and>
   \<not> consented ex_new \<and>
   chat_sessions (snd (process_message ex_env ''hello'' ''080'' ex_new)) = [] \<and>
   fst (process_message ex_env_fault ''hello'' ''080'' ex_identified) =
     Inl (DatabaseError ''database is locked'') \<and>
   chat_sessions (snd (process_message ex_env_fault ''hello'' ''080'' ex_identified)) = []"
proof -
  have a: "\<not> str_in ''agent'' (lower ''make a claim'')" "consented ex_identified"
    "resolve_customer ''080'' ex_identified = Inr ex_identified"
    "fst (process_message ex_env ''make a claim'' ''080'' ex_identified) =
       Inr ''To make a claim, please upload the necessary documents.''"
    by (simp_all add: string_eval example_eval turn_eval)
  have b: "\<not> consented ex_new"
    by (simp add: example_eval)
  have c: "fst (process_message ex_env_fault ''hello'' ''080'' ex_identified) =
      Inl (DatabaseError ''database is locked'')"
    by (simp add: string_eval example_eval turn_eval)
  have i: "chat_sessions ex_identified = []" "chat_sessions ex_new = []"
    "json_dumps ex_env (PDict (context_map ex_identified)) = ''{}''" "now ex_env = 7"
    "map_of (context_map ex_identified) ''customer'' = Some (get_customer_info ''080'' ex_new)"
    "get_customer_info ''080'' ex_new =
       PDict [(''id'', PInt 1), (''name'', PStr ''Ngozi''), (''phone'', PStr ''080''),
              (''email'', PStr ''n@x.com''), (''dob'', PStr ''1990-01-01''),
              (''company_preference'', PStr ''Life''), (''created_at'', PStr ''2024-01-01''),
              (''last_interaction'', PNone)]"
    by (simp_all add: example_eval)
  show ?thesis
    using a b c
      snapshot_per_saved_turn [of "''make a claim''" ex_identified "''080''" ex_identified ex_env
        "''To make a claim, please upload the necessary documents.''"]
      snapshot_per_saved_turn [of "''hello''" ex_new "''080''" _ ex_env]
      snapshot_per_saved_turn [of "''hello''" ex_identified "''080''" _ ex_env_fault _ _
        "DatabaseError ''database is locked''"]
    by (auto simp: i)
qed

text \<open>
  The claim as stated fails on the fixed intent "make a claim" of an identified customer:
  the canned reply is returned and a snapshot row is appended all the same.
\<close>

theorem snapshot_per_saved_turn_counterexample:
  "lower ''make a claim'' \<in> set fixed_intents \<and>
   fst (process_message ex_env ''make a claim'' ''080'' ex_identified) =
     Inr ''To make a claim, please upload the necessary documents.'' \<and>
   new_calls ex_identified (snd (process_message ex_env ''make a claim'' ''080'' ex_identified)) =
     [Call_handle_purpose ''make a claim'', Call_save_chat_context (PInt 1) ''{}''] \<and>
   chat_sessions ex_identified = [] \<and>
   chat_sessions (snd (process_message ex_env ''make a claim'' ''080'' ex_identified)) =
     [\<lparr>cs_customer_id = PInt 1, cs_context = ''{}'', cs_start_time = 7\<rparr>]"
  by (simp add: string_eval example_eval turn_eval)

text \<open>
  C8 (as amended). On a generative turn whose response has been computed, the response is
  returned when the snapshot insert succeeds. When the insert raises, the exception leaves
  \<^verbatim>\<open>process_message\<close>: the turn fails with the database error instead of returning the
  response, both turns are already in the transcript and no snapshot row is written.
\<close>

theorem persistence_failure_propagates:
  assumes "\<not> str_in ''agent'' (lower u)" and "consented s" and "resolve_customer p s = Inr s1"
    and "lower u \<notin> set fixed_intents" and "fst (generate_response e u s1) = Inr r"
    and "map_of (context_map s1) ''customer'' = Some (PDict d)" and "map_of d ''id'' = Some cid"
  shows "(insert_fault e = None \<longrightarrow> fst (process_message e u p s) = Inr r) \<and>
         (insert_fault e = Some err \<longrightarrow>
            fst (process_message e u p s) = Inl (DatabaseError err) \<and>
            chat_history (snd (process_message e u p s)) =
              chat_history s @ [(''user'', u), (''assistant'', r)] \<and>
            chat_sessions (snd (process_message e u p s)) = chat_sessions s)"
proof -
  obtain s2 where g: "generate_response e u s1 = (Inr r, s2)"
    using assms(5) by (cases "generate_response e u s1") simp
  have s2: "context_map s2 = context_map s1" "chat_history s2 = chat_history s1"
    "chat_sessions s2 = chat_sessions s1"
    using generate_response_frame(1,2,5) [of e u s1] g by simp_all
  have pm: "process_message e u p s = save_turn e u r s2"
    using assms(1-4) g by (simp add: process_message_generative)
  have v: "fst (save_turn e u r s2) =
      (case insert_fault e of None \<Rightarrow> Inr r | Some err \<Rightarrow> Inl (DatabaseError err))"
    using assms(6,7) s2 by (intro save_turn_value) simp_all
  have "insert_fault e = Some err \<Longrightarrow> chat_sessions (snd (save_turn e u r s2)) = chat_sessions s2"
    using v by (intro save_turn_failed [of _ _ _ _ "DatabaseError err"]) simp
  with pm v s2 resolve_customer_frame [of p s s1] assms(3) show ?thesis
    by simp
qed

theorem persistence_failure_propagates_witness:
  "\<not> str_in ''agent'' (lower ''hello'') \<and> consented ex_identified \<and>
   resolve_customer ''080'' ex_identified = Inr ex_identified \<and>
   lower ''hello'' \<notin> set fixed_intents \<and>
   fst (generate_response ex_env ''hello'' ex_identified) = Inr ''answer'' \<and>
   fst (generate_response ex_env_fault ''hello'' ex_identified) = Inr ''answer'' \<and>
   map_of (context_map ex_identified) ''customer'' = Some (get_customer_info ''080'' ex_new) \<and>
   insert_fault ex_env = None \<and>
   fst (process_message ex_env ''hello'' ''080'' ex_identified) = Inr ''answer'' \<and>
   insert_fault ex_env_fault = Some ''database is locked'' \<and>
   fst (process_message ex_env_fault ''hello'' ''080'' ex_identified) =
     Inl (DatabaseError ''database is locked'') \<and>
   chat_history (snd (process_message ex_env_fault ''hello'' ''080'' ex_identified)) =
     [(''user'', ''hello''), (''assistant'', ''answer'')] \<and>
   chat_sessions (snd (process_message ex_env_fault ''hello'' ''080'' ex_identified)) = []"
proof -
  have h: "\<not> str_in ''agent'' (lower ''hello'')" "consented ex_identified"
    "resolve_customer ''080'' ex_identified = Inr ex_identified"
    "lower ''hello'' \<notin> set fixed_intents"
    by (simp_all add: string_eval example_eval)
  have g: "fst (generate_response ex_env ''hello'' ex_identified) = Inr ''answer''"
    "fst (generate_response ex_env_fault ''hello'' ex_identified) = Inr ''answer''"
    by (simp_all add: example_eval turn_eval)
  have c: "map_of (context_map ex_identified) ''customer'' =
      Some (PDict [(''id'', PInt 1), (''name'', PStr ''Ngozi''), (''phone'', PStr ''080''),
              (''email'', PStr ''n@x.com''), (''dob'', PStr ''1990-01-01''),
              (''company_preference'', PStr ''Life''), (''created_at'', PStr ''2024-01-01''),
              (''last_interaction'', PNone)])"
    "map_of [(''id'', PInt 1), (''name'', PStr ''Ngozi''), (''phone'', PStr ''080''),
              (''email'', PStr ''n@x.com''), (''dob'', PStr ''1990-01-01''),
              (''company_preference'', PStr ''Life''), (''created_at'', PStr ''2024-01-01''),
              (''last_interaction'', PNone)] ''id'' = Some (PInt 1)"
    by (simp_all add: example_eval)
  have i: "insert_fault ex_env = None" "insert_fault ex_env_fault = Some ''database is locked''"
    "chat_history ex_identified = []" "chat_sessions ex_identified = []"
    "get_customer_info ''080'' ex_new =
       PDict [(''id'', PInt 1), (''name'', PStr ''Ngozi''), (''phone'', PStr ''080''),
              (''email'', PStr ''n@x.com''), (''dob'', PStr ''1990-01-01''),
              (''company_preference'', PStr ''Life''), (''created_at'', PStr ''2024-01-01''),
              (''last_interaction'', PNone)]"
    by (simp_all add: example_eval)
  show ?thesis
    using h g c(1) i
      persistence_failure_propagates [OF h g(1) c, of "''database is locked''"]
      persistence_failure_propagates [OF h g(2) c, of "''database is locked''"]
    by simp
qed

text \<open>
  The claim as stated fails when the insert raises: the model has answered "answer", and
  the turn ends in the database error.
\<close>

theorem persistence_failure_propagates_counterexample:
  "fst (generate_response ex_env_fault ''hello'' ex_identified) = Inr ''answer'' \<and>
   insert_fault ex_env_fault = Some ''database is locked'' \<and>
   fst (process_message ex_env_fault ''hello'' ''080'' ex_identified) =
     Inl (DatabaseError ''database is locked'')"
  by (simp add: string_eval example_eval turn_eval)

section \<open>Intent routing\<close>

lemma fixed_intent_dispatch:
  assumes "\<not> str_in ''agent'' (lower u)" and "consented s" and "resolve_customer p s = Inr s1"
    and "lower u \<in> set fixed_intents"
  shows "filter retrieves_or_generates (new_calls s (snd (process_message e u p s))) = []"
    and "fst (process_message e u p s) = Inr r \<Longrightarrow>
         r = (if lower u = ''buy a product'' then
                ''What category of insurance would you like? Options: Life, Health, Motor, Personal Accident.''
              else if lower u = ''view your policies'' then
                ''Please provide your policy number to view details.''
              else if lower u = ''make a claim'' then
                ''To make a claim, please upload the necessary documents.''
              else ''Please describe your issue so we can assist you promptly.'')"
proof -
  let ?s1 = "record_call (Call_handle_purpose u) s1"
  have pm: "process_message e u p s = save_turn e u (handle_purpose u) ?s1"
    using assms by (simp add: process_message_intent)
  obtain post where post: "calls (snd (save_turn e u (handle_purpose u) ?s1)) = calls ?s1 @ post"
    "\<forall>ev\<in>set post. \<exists>c j. ev = Call_save_chat_context c j"
    using save_turn_calls by blast
  have "new_calls s (snd (process_message e u p s)) =
      (if key_in ''customer'' (context_map s) then [] else [Call_get_customer_info p True]) @
      [Call_handle_purpose u] @ post"
    using post(1) resolve_customer_calls [OF assms(3)] pm by (intro new_calls_append) simp
  moreover have "filter retrieves_or_generates post = []"
    using post(2) by (auto simp: filter_empty_conv)
  ultimately show "filter retrieves_or_generates (new_calls s (snd (process_message e u p s))) = []"
    by simp
  show "r = (if lower u = ''buy a product'' then
                ''What category of insurance would you like? Options: Life, Health, Motor, Personal Accident.''
              else if lower u = ''view your policies'' then
                ''Please provide your policy number to view details.''
              else if lower u = ''make a claim'' then
                ''To make a claim, please upload the necessary documents.''
              else ''Please describe your issue so we can assist you promptly.'')"
    if "fst (process_message e u p s) = Inr r"
  proof -
    from that pm have "fst (save_turn e u (handle_purpose u) ?s1) = Inr r" by simp
    from save_turn_ok [OF this] have "r = handle_purpose u" by simp
    with assms(4) show ?thesis
      by (auto simp: handle_purpose_def fixed_intents_def)
  qed
qed

text \<open>
  C6. The intent test lower-cases the message and does not trim it. A message of an
  identified customer that matches "make a claim" only after trimming is not routed: the
  web search, the knowledge base and the model are called and the model's answer is
  returned, not the canned reply.
\<close>

theorem untrimmed_intent_is_generated:
  "lower (strip '' make a claim'') = ''make a claim'' \<and> consented ex_identified \<and>
   key_in ''customer'' (context_map ex_identified) \<and>
   fst (process_message ex_env '' make a claim'' ''080'' ex_identified) = Inr ''answer'' \<and>
   handle_purpose ''make a claim'' = ''To make a claim, please upload the necessary documents.'' \<and>
   map retrieves_or_generates
     (new_calls ex_identified (snd (process_message ex_env '' make a claim'' ''080'' ex_identified))) =
     [True, True, True, False]"
  by (simp add: string_eval example_eval turn_eval)


section \<open>Sessions: the gates over many turns\<close>

subsection \<open>What one turn does to the context and to the calls\<close>

lemma resolve_customer_Inl:
  assumes "resolve_customer p s = Inl s1"
  shows "\<not> key_in ''customer'' (context_map s)" and "\<forall>c\<in>set (customers s). c_phone c \<noteq> p"
    and "s1 = s\<lparr>calls := calls s @ [Call_get_customer_info p False]\<rparr>"
proof -
  show k: "\<not> key_in ''customer'' (context_map s)"
    using assms by (auto simp: resolve_customer_cached)
  from assms resolve_customer_lookup [OF k, of p]
  show "\<forall>c\<in>set (customers s). c_phone c \<noteq> p"
    and "s1 = s\<lparr>calls := calls s @ [Call_get_customer_info p False]\<rparr>"
    by (auto split: if_splits)
qed

lemma resolve_customer_Inr:
  assumes "resolve_customer p s = Inr s1"
  shows "key_in ''customer'' (context_map s1)"
    and "map_of (context_map s1) ''privacy'' = map_of (context_map s) ''privacy''"
    and "key_in ''customer'' (context_map s) \<Longrightarrow> s1 = s"
    and "\<not> key_in ''customer'' (context_map s) \<Longrightarrow>
         map_of (context_map s1) ''customer'' = Some (get_customer_info p s) \<and>
         (\<exists>c\<in>set (customers s). c_phone c = p)"
proof -
  show "key_in ''customer'' (context_map s) \<Longrightarrow> s1 = s"
    using assms by (simp add: resolve_customer_cached)
  show "\<not> key_in ''customer'' (context_map s) \<Longrightarrow>
      map_of (context_map s1) ''customer'' = Some (get_customer_info p s) \<and>
      (\<exists>c\<in>set (customers s). c_phone c = p)"
    using assms by (auto simp: resolve_customer_lookup dict_set_def update_conv' split: if_splits)
  show "key_in ''customer'' (context_map s1)"
    using assms
    by (cases "key_in ''customer'' (context_map s)")
       (auto simp: resolve_customer_cached resolve_customer_lookup dict_set_def update_conv'
          key_in_def split: if_splits)
  show "map_of (context_map s1) ''privacy'' = map_of (context_map s) ''privacy''"
    using assms
    by (cases "key_in ''customer'' (context_map s)")
       (auto simp: resolve_customer_cached resolve_customer_lookup dict_set_def update_conv'
          split: if_splits)
qed

lemma agent_turn:
  assumes "str_in ''agent'' (lower u)"
  shows "context_map (snd (process_message e u p s)) = context_map s"
    and "\<exists>evs. calls (snd (process_message e u p s)) = calls s @ evs \<and>
           (\<forall>ev\<in>set evs. ev = Call_get_available_agent \<or> (\<exists>i st. ev = Call_update_agent_status i st))"
  using assms by (auto simp: process_message_agent split: option.splits)

lemma unconsented_turn:
  assumes "\<not> str_in ''agent'' (lower u)" and "\<not> key_in ''privacy'' (context_map s)"
  shows "calls (snd (process_message e u p s)) = calls s"
    and "context_map (snd (process_message e u p s)) = context_map s \<or>
         context_map (snd (process_message e u p s)) = dict_set (context_map s) ''privacy'' (PBool True)"
  using assms by (auto simp: process_message_unconsented)

lemma passed_turn:
  assumes "\<not> str_in ''agent'' (lower u)" and "consented s" and "resolve_customer p s = Inr s1"
  shows "context_map (snd (process_message e u p s)) = context_map s1"
    and "\<exists>rest. calls (snd (process_message e u p s)) = calls s1 @ rest \<and>
           (rest = [] \<or> routes_or_generates (hd rest)) \<and>
           (\<forall>ev\<in>set rest. routes_or_generates ev \<or> (\<exists>c j. ev = Call_save_chat_context c j))"
proof -
  show "context_map (snd (process_message e u p s)) = context_map s1"
  proof (cases "lower u \<in> set fixed_intents")
    case True
    with assms show ?thesis by (simp add: process_message_intent)
  next
    case False
    obtain g s2 where g: "generate_response e u s1 = (g, s2)"
      by (cases "generate_response e u s1")
    have "context_map s2 = context_map s1"
      using generate_response_frame(1) [of e u s1] g by simp
    with False assms g show ?thesis
      by (cases g) (simp_all add: process_message_generative)
  qed
  show "\<exists>rest. calls (snd (process_message e u p s)) = calls s1 @ rest \<and>
      (rest = [] \<or> routes_or_generates (hd rest)) \<and>
      (\<forall>ev\<in>set rest. routes_or_generates ev \<or> (\<exists>c j. ev = Call_save_chat_context c j))"
  proof (cases "lower u \<in> set fixed_intents")
    case True
    obtain post where post:
      "calls (snd (save_turn e u (handle_purpose u) (record_call (Call_handle_purpose u) s1))) =
         calls (record_call (Call_handle_purpose u) s1) @ post"
      "\<forall>ev\<in>set post. \<exists>c j. ev = Call_save_chat_context c j"
      using save_turn_calls by blast
    have "calls (snd (process_message e u p s)) = calls s1 @ (Call_handle_purpose u # post)"
      using True assms post(1) by (simp add: process_message_intent)
    moreover have "\<forall>ev\<in>set (Call_handle_purpose u # post).
        routes_or_generates ev \<or> (\<exists>c j. ev = Call_save_chat_context c j)"
      using post(2) by simp
    ultimately show ?thesis
      by (intro exI [of _ "Call_handle_purpose u # post"]) simp
  next
    case False
    show ?thesis
    proof (cases "serp_api_key e")
      case None
      with False assms have "calls (snd (process_message e u p s)) = calls s1 @ []"
        by (simp add: process_message_generative generate_response_no_key)
      then show ?thesis by (intro exI [of _ "[]"]) simp
    next
      case (Some k)
      let ?gen = "[Call_google_search (refined u), Call_retrieve_from_knowledge_base (refined u),
        Call_completions_create (build_prompt (customer_json e s1) (fused e (refined u)) u) u]"
      obtain post where post: "calls (snd (process_message e u p s)) = calls s1 @ ?gen @ post"
        "\<forall>ev\<in>set post. \<exists>c j. ev = Call_save_chat_context c j"
        using process_message_generative_calls [OF assms False Some] by blast
      have "\<forall>ev\<in>set (?gen @ post). routes_or_generates ev \<or> (\<exists>c j. ev = Call_save_chat_context c j)"
        using post(2) by auto
      with post(1) show ?thesis
        by (intro exI [of _ "?gen @ post"]) simp
    qed
  qed
qed

lemma passed_turn_calls:
  assumes "\<not> str_in ''agent'' (lower u)" and "consented s" and "resolve_customer p s = Inr s1"
    and "ev \<in> set (calls (snd (process_message e u p s)))"
  shows "ev \<in> set (calls s) \<or> ev = Call_get_customer_info p True \<or> routes_or_generates ev \<or>
         (\<exists>c j. ev = Call_save_chat_context c j)"
proof -
  obtain rest where rest: "calls (snd (process_message e u p s)) = calls s1 @ rest"
    "\<forall>ev\<in>set rest. routes_or_generates ev \<or> (\<exists>c j. ev = Call_save_chat_context c j)"
    using passed_turn(2) [OF assms(1-3)] by blast
  from assms(4) rest(1) have "ev \<in> set (calls s1) \<or> ev \<in> set rest" by simp
  then show ?thesis
  proof
    assume "ev \<in> set (calls s1)"
    with resolve_customer_calls [OF assms(3)] show ?thesis
      by (auto split: if_splits)
  next
    assume "ev \<in> set rest"
    with rest(2) show ?thesis by blast
  qed
qed

subsection \<open>The privacy flag\<close>

lemma privacy_ok_consented:
  "privacy_ok s \<Longrightarrow> key_in ''privacy'' (context_map s) \<Longrightarrow> consented s"
  by (auto simp: privacy_ok_def key_in_def consented_def dict_get_def)

lemma consented_privacy_ok:
  "privacy_ok s \<Longrightarrow> consented s \<Longrightarrow> map_of (context_map s) ''privacy'' = Some (PBool True)"
  by (auto simp: privacy_ok_def key_in_def consented_def)

lemma process_message_privacy_ok:
  assumes "privacy_ok s"
  shows "privacy_ok (snd (process_message e u p s))"
proof (cases rule: process_message_cases [where u = u and s = s and p = p])
  case agent
  with assms agent_turn(1) [of u e p s] show ?thesis
    by (simp add: privacy_ok_def)
next
  case unconsented
  with assms unconsented_turn(2) [of u s e p] show ?thesis
    by (auto simp: privacy_ok_def dict_set_def update_conv')
next
  case denied
  with assms privacy_ok_consented show ?thesis by blast
next
  case (not_found s1)
  with assms resolve_customer_Inl(3) [of p s s1] show ?thesis
    by (simp add: process_message_not_found privacy_ok_def)
next
  case (intent s1)
  with assms passed_turn(1) [of u s p s1 e] resolve_customer_Inr(2) [of p s s1] show ?thesis
    by (simp add: privacy_ok_def)
next
  case (generative s1)
  with assms passed_turn(1) [of u s p s1 e] resolve_customer_Inr(2) [of p s s1] show ?thesis
    by (simp add: privacy_ok_def)
qed

lemma process_message_never_denied:
  assumes "privacy_ok s" and "Return_consent_denied \<notin> set (calls s)"
  shows "Return_consent_denied \<notin> set (calls (snd (process_message e u p s)))"
proof (cases rule: process_message_cases [where u = u and s = s and p = p])
  case agent
  with assms agent_turn(2) [of u e p s] show ?thesis by auto
next
  case unconsented
  with assms unconsented_turn(1) [of u s e p] show ?thesis by simp
next
  case denied
  with assms privacy_ok_consented show ?thesis by blast
next
  case (not_found s1)
  with assms resolve_customer_Inl(3) [of p s s1] show ?thesis
    by (simp add: process_message_not_found)
next
  case (intent s1)
  with assms passed_turn_calls [of u s p s1 Return_consent_denied e] show ?thesis
    by auto
next
  case (generative s1)
  with assms passed_turn_calls [of u s p s1 Return_consent_denied e] show ?thesis
    by auto
qed

lemma run_privacy_ok:
  "privacy_ok s \<Longrightarrow> Return_consent_denied \<notin> set (calls s) \<Longrightarrow>
   privacy_ok (run ts s) \<and> Return_consent_denied \<notin> set (calls (run ts s))"
proof (induction ts arbitrary: s)
  case Nil
  then show ?case by simp
next
  case (Cons t ts)
  obtain e u p where t: "t = (e, u, p)" by (cases t)
  from Cons.prems have "privacy_ok (snd (process_message e u p s))"
    and "Return_consent_denied \<notin> set (calls (snd (process_message e u p s)))"
    by (simp_all add: process_message_privacy_ok process_message_never_denied)
  from Cons.IH [OF this] t show ?case by simp
qed

lemma new_chatbot_privacy_ok:
  "privacy_ok (new_chatbot ags cus ses au)" "calls (new_chatbot ags cus ses au) = []"
  by (simp_all add: privacy_ok_def new_chatbot_def)

text \<open>
  C10. In every state a session reaches from a new chatbot, a privacy flag that is present
  is \<^verbatim>\<open>True\<close> (no turn stores another value), and the refusal that re-checks a
  present flag has never been returned.
\<close>

theorem privacy_flag_only_true:
  "(key_in ''privacy'' (context_map (run ts (new_chatbot ags cus ses au))) \<longrightarrow>
      map_of (context_map (run ts (new_chatbot ags cus ses au))) ''privacy'' = Some (PBool True)) \<and>
   Return_consent_denied \<notin> set (calls (run ts (new_chatbot ags cus ses au)))"
  using run_privacy_ok [of "new_chatbot ags cus ses au" ts] new_chatbot_privacy_ok [of ags cus ses au]
  by (auto simp: privacy_ok_def key_in_def)

theorem privacy_flag_only_true_witness:
  "key_in ''privacy'' (context_map (run [(ex_env, ''disagree'', ''080''), (ex_env, ''Agree'', ''080'')] ex_new)) \<and>
   map_of (context_map (run [(ex_env, ''disagree'', ''080''), (ex_env, ''Agree'', ''080'')] ex_new))
     ''privacy'' = Some (PBool True) \<and>
   Return_consent_denied \<notin> set (calls (run [(ex_env, ''disagree'', ''080''), (ex_env, ''Agree'', ''080'')] ex_new))"
proof -
  have k: "key_in ''privacy''
      (context_map (run [(ex_env, ''disagree'', ''080''), (ex_env, ''Agree'', ''080'')]
         (new_chatbot [ex_agent] [ex_customer] [] [])))"
    by (simp add: string_eval example_eval turn_eval)
  show ?thesis
    using k privacy_flag_only_true [of "[(ex_env, ''disagree'', ''080''), (ex_env, ''Agree'', ''080'')]"
        "[ex_agent]" "[ex_customer]" "[]" "[]"]
    by (simp add: ex_new_def)
qed


subsection \<open>The customer lookup\<close>

lemma passed_no_lookup:
  "routes_or_generates ev \<or> (\<exists>c j. ev = Call_save_chat_context c j) \<Longrightarrow> is_lookup ev \<Longrightarrow> False"
  by (cases ev) auto

lemma passed_no_lookups:
  assumes "\<forall>ev\<in>set rest. routes_or_generates ev \<or> (\<exists>c j. ev = Call_save_chat_context c j)"
  shows "filter is_lookup rest = []"
proof -
  have "\<not> is_lookup ev" if "ev \<in> set rest" for ev
    using assms that passed_no_lookup [of ev] by blast
  then show ?thesis
    by (simp add: filter_empty_conv)
qed

lemma process_message_lookups:
  "filter is_lookup (calls (snd (process_message e u p s))) =
     filter is_lookup (calls s) @
     (if \<not> str_in ''agent'' (lower u) \<and> consented s \<and> \<not> key_in ''customer'' (context_map s)
      then [Call_get_customer_info p (\<exists>c\<in>set (customers s). c_phone c = p)] else [])"
proof (cases rule: process_message_cases [where u = u and s = s and p = p])
  case agent
  obtain evs where evs: "calls (snd (process_message e u p s)) = calls s @ evs"
    "\<forall>ev\<in>set evs. ev = Call_get_available_agent \<or> (\<exists>i st. ev = Call_update_agent_status i st)"
    using agent_turn(2) [OF agent] by blast
  from evs(2) have "filter is_lookup evs = []"
    by (auto simp: filter_empty_conv)
  with agent evs(1) show ?thesis by simp
next
  case unconsented
  then have "\<not> consented s" by (simp add: consented_def)
  with unconsented unconsented_turn(1) [of u s e p] show ?thesis by simp
next
  case denied
  then show ?thesis by (simp add: process_message_denied)
next
  case (not_found s1)
  with resolve_customer_Inl [of p s s1] show ?thesis
    by (simp add: process_message_not_found)
next
  case (intent s1)
  obtain rest where rest: "calls (snd (process_message e u p s)) = calls s1 @ rest"
    "\<forall>ev\<in>set rest. routes_or_generates ev \<or> (\<exists>c j. ev = Call_save_chat_context c j)"
    using passed_turn(2) [OF intent(1-3)] by blast
  from rest(2) have "filter is_lookup rest = []"
    by (rule passed_no_lookups)
  with intent rest(1) resolve_customer_calls [OF intent(3)] resolve_customer_Inr(4) [OF intent(3)]
  show ?thesis by simp
next
  case (generative s1)
  obtain rest where rest: "calls (snd (process_message e u p s)) = calls s1 @ rest"
    "\<forall>ev\<in>set rest. routes_or_generates ev \<or> (\<exists>c j. ev = Call_save_chat_context c j)"
    using passed_turn(2) [OF generative(1-3)] by blast
  from rest(2) have "filter is_lookup rest = []"
    by (rule passed_no_lookups)
  with generative rest(1) resolve_customer_calls [OF generative(3)]
    resolve_customer_Inr(4) [OF generative(3)]
  show ?thesis by simp
qed

lemma filter_found_lookup: "filter is_found_lookup xs = filter is_found_lookup (filter is_lookup xs)"
proof -
  have "is_found_lookup ev \<Longrightarrow> is_lookup ev" for ev
    by (cases ev) simp_all
  then have "(\<lambda>ev. is_lookup ev \<and> is_found_lookup ev) = is_found_lookup"
    by auto
  then show ?thesis by simp
qed

lemma process_message_found_lookups:
  "filter is_found_lookup (calls (snd (process_message e u p s))) =
     filter is_found_lookup (calls s) @
     (if \<not> str_in ''agent'' (lower u) \<and> consented s \<and> \<not> key_in ''customer'' (context_map s) \<and>
         (\<exists>c\<in>set (customers s). c_phone c = p)
      then [Call_get_customer_info p True] else [])"
proof -
  have "filter is_found_lookup (calls (snd (process_message e u p s))) =
      filter is_found_lookup (filter is_lookup (calls (snd (process_message e u p s))))"
    by (rule filter_found_lookup)
  also have "\<dots> = filter is_found_lookup (filter is_lookup (calls s)) @
     (if \<not> str_in ''agent'' (lower u) \<and> consented s \<and> \<not> key_in ''customer'' (context_map s) \<and>
         (\<exists>c\<in>set (customers s). c_phone c = p)
      then [Call_get_customer_info p True] else [])"
    unfolding process_message_lookups by simp
  finally show ?thesis
    using filter_found_lookup [of "calls s"] by simp
qed

lemma process_message_keeps_customer:
  assumes "key_in ''customer'' (context_map s)"
  shows "map_of (context_map (snd (process_message e u p s))) ''customer'' =
         map_of (context_map s) ''customer''"
proof (cases rule: process_message_cases [where u = u and s = s and p = p])
  case agent
  with agent_turn(1) [of u e p s] show ?thesis by simp
next
  case unconsented
  with unconsented_turn(2) [of u s e p] show ?thesis
    by (auto simp: dict_set_def update_conv')
next
  case denied
  then show ?thesis by (simp add: process_message_denied)
next
  case (not_found s1)
  with assms resolve_customer_Inl(1) [of p s s1] show ?thesis by simp
next
  case (intent s1)
  with assms passed_turn(1) [of u s p s1 e] resolve_customer_Inr(3) [of p s s1] show ?thesis
    by simp
next
  case (generative s1)
  with assms passed_turn(1) [of u s p s1 e] resolve_customer_Inr(3) [of p s s1] show ?thesis
    by simp
qed

lemma process_message_caches_customer:
  assumes "\<not> str_in ''agent'' (lower u)" and "consented s"
    and "\<not> key_in ''customer'' (context_map s)" and "\<exists>c\<in>set (customers s). c_phone c = p"
  shows "map_of (context_map (snd (process_message e u p s))) ''customer'' =
         Some (get_customer_info p s)"
proof -
  obtain s1 where s1: "resolve_customer p s = Inr s1"
    using assms(3,4) by (simp add: resolve_customer_lookup)
  from passed_turn(1) [OF assms(1,2) s1] resolve_customer_Inr(4) [OF s1 assms(3)]
  show ?thesis by simp
qed

text \<open>Found lookups so far: none while no customer is cached, and never more than one.\<close>

lemma process_message_lookup_once:
  assumes "\<not> key_in ''customer'' (context_map s) \<longrightarrow> filter is_found_lookup (calls s) = []"
    and "length (filter is_found_lookup (calls s)) \<le> 1"
  shows "(\<not> key_in ''customer'' (context_map (snd (process_message e u p s))) \<longrightarrow>
            filter is_found_lookup (calls (snd (process_message e u p s))) = []) \<and>
         length (filter is_found_lookup (calls (snd (process_message e u p s)))) \<le> 1"
proof (cases "key_in ''customer'' (context_map s)")
  case True
  with process_message_keeps_customer [OF True, of e u p]
  have "key_in ''customer'' (context_map (snd (process_message e u p s)))"
    by (simp add: key_in_def)
  with True assms(2) show ?thesis
    by (simp add: process_message_found_lookups)
next
  case False
  show ?thesis
  proof (cases "\<not> str_in ''agent'' (lower u) \<and> consented s \<and> (\<exists>c\<in>set (customers s). c_phone c = p)")
    case True
    with False process_message_caches_customer [of u s p e]
    have "key_in ''customer'' (context_map (snd (process_message e u p s)))"
      by (simp add: key_in_def)
    with True False assms(1) show ?thesis
      by (simp add: process_message_found_lookups)
  next
    case no: False
    with False assms(1) show ?thesis
      by (auto simp: process_message_found_lookups)
  qed
qed

lemma run_lookup_once:
  "(\<not> key_in ''customer'' (context_map s) \<longrightarrow> filter is_found_lookup (calls s) = []) \<Longrightarrow>
   length (filter is_found_lookup (calls s)) \<le> 1 \<Longrightarrow>
   length (filter is_found_lookup (calls (run ts s))) \<le> 1"
proof (induction ts arbitrary: s)
  case Nil
  then show ?case by simp
next
  case (Cons t ts)
  obtain e u p where t: "t = (e, u, p)" by (cases t)
  from process_message_lookup_once [OF Cons.prems, of e u p] Cons.IH [of "snd (process_message e u p s)"] t
  show ?case by simp
qed

text \<open>
  C9 (as amended). In a session a customer lookup succeeds at most once: its result is
  stored under \<^verbatim>\<open>"customer"\<close>, and while that entry is present a turn looks nothing up
  and leaves the entry as it is. When no row has the phone number, the turn returns the
  failure message that points to support, and apart from the record of the lookup the
  state is unchanged: nothing is cached, so the next turn that reaches the identity gate
  looks the customer up again.
\<close>

theorem identity_lookup_cached:
  "length (filter is_found_lookup (calls (run ts (new_chatbot ags cus ses au)))) \<le> 1 \<and>
   (key_in ''customer'' (context_map s) \<longrightarrow>
      filter is_lookup (new_calls s (snd (process_message e u p s))) = [] \<and>
      map_of (context_map (snd (process_message e u p s))) ''customer'' =
        map_of (context_map s) ''customer'') \<and>
   (\<not> str_in ''agent'' (lower u) \<and> consented s \<and> \<not> key_in ''customer'' (context_map s) \<and>
    (\<exists>c\<in>set (customers s). c_phone c = p) \<longrightarrow>
      map_of (context_map (snd (process_message e u p s))) ''customer'' = Some (get_customer_info p s) \<and>
      filter is_lookup (new_calls s (snd (process_message e u p s))) = [Call_get_customer_info p True]) \<and>
   (\<not> str_in ''agent'' (lower u) \<and> consented s \<and> \<not> key_in ''customer'' (context_map s) \<and>
    (\<forall>c\<in>set (customers s). c_phone c \<noteq> p) \<longrightarrow>
      fst (process_message e u p s) =
        Inr (''Sorry, we couldn'' @ [CHR 0x27] @ ''t find your details. Please contact support for assistance.'') \<and>
      snd (process_message e u p s) = s\<lparr>calls := calls s @ [Call_get_customer_info p False]\<rparr>)"
proof -
  have ext: "\<exists>evs. calls (snd (process_message e u p s)) = calls s @ evs"
  proof (cases rule: process_message_cases [where u = u and s = s and p = p])
    case agent
    with agent_turn(2) [of u e p s] show ?thesis by blast
  next
    case unconsented
    with unconsented_turn(1) [of u s e p] show ?thesis by simp
  next
    case denied
    then show ?thesis by (simp add: process_message_denied)
  next
    case (not_found s1)
    with resolve_customer_Inl(3) [of p s s1] show ?thesis
      by (simp add: process_message_not_found)
  next
    case (intent s1)
    with passed_turn(2) [of u s p s1 e] resolve_customer_calls [of p s s1] show ?thesis
      by auto
  next
    case (generative s1)
    with passed_turn(2) [of u s p s1 e] resolve_customer_calls [of p s s1] show ?thesis
      by auto
  qed
  then obtain evs where evs: "calls (snd (process_message e u p s)) = calls s @ evs" by blast
  then have nc: "new_calls s (snd (process_message e u p s)) = evs"
    by (rule new_calls_append)
  have lk: "filter is_lookup evs =
      (if \<not> str_in ''agent'' (lower u) \<and> consented s \<and> \<not> key_in ''customer'' (context_map s)
       then [Call_get_customer_info p (\<exists>c\<in>set (customers s). c_phone c = p)] else [])"
    using process_message_lookups [of e u p s] evs by simp
  have a: "length (filter is_found_lookup (calls (run ts (new_chatbot ags cus ses au)))) \<le> 1"
    by (rule run_lookup_once) (simp_all add: new_chatbot_def)
  have b: "key_in ''customer'' (context_map s) \<longrightarrow>
      filter is_lookup (new_calls s (snd (process_message e u p s))) = [] \<and>
      map_of (context_map (snd (process_message e u p s))) ''customer'' =
        map_of (context_map s) ''customer''"
    using process_message_keeps_customer [of s e u p] by (simp add: nc lk)
  have c: "\<not> str_in ''agent'' (lower u) \<and> consented s \<and> \<not> key_in ''customer'' (context_map s) \<and>
      (\<exists>c\<in>set (customers s). c_phone c = p) \<longrightarrow>
      map_of (context_map (snd (process_message e u p s))) ''customer'' = Some (get_customer_info p s) \<and>
      filter is_lookup (new_calls s (snd (process_message e u p s))) = [Call_get_customer_info p True]"
    using process_message_caches_customer [of u s p e] by (simp add: nc lk)
  have d: "\<not> str_in ''agent'' (lower u) \<and> consented s \<and> \<not> key_in ''customer'' (context_map s) \<and>
      (\<forall>c\<in>set (customers s). c_phone c \<noteq> p) \<longrightarrow>
      fst (process_message e u p s) =
        Inr (''Sorry, we couldn'' @ [CHR 0x27] @ ''t find your details. Please contact support for assistance.'') \<and>
      snd (process_message e u p s) = s\<lparr>calls := calls s @ [Call_get_customer_info p False]\<rparr>"
  proof (intro impI, elim conjE)
    assume h: "\<not> str_in ''agent'' (lower u)" "consented s" "\<not> key_in ''customer'' (context_map s)"
      "\<forall>c\<in>set (customers s). c_phone c \<noteq> p"
    then have "resolve_customer p s = Inl (s\<lparr>calls := calls s @ [Call_get_customer_info p False]\<rparr>)"
      by (simp add: resolve_customer_lookup)
    with h show "fst (process_message e u p s) =
        Inr (''Sorry, we couldn'' @ [CHR 0x27] @ ''t find your details. Please contact support for assistance.'') \<and>
      snd (process_message e u p s) = s\<lparr>calls := calls s @ [Call_get_customer_info p False]\<rparr>"
      by (simp add: process_message_not_found not_found_reply_def)
  qed
  from a b c d show ?thesis by blast
qed

theorem identity_lookup_cached_witness:
  "length (filter is_found_lookup
     (calls (run [(ex_env, ''agree'', ''080''), (ex_env, ''hello'', ''080''), (ex_env, ''hello'', ''080'')]
        (new_chatbot [ex_agent] [ex_customer] [] [])))) \<le> 1 \<and>
   key_in ''customer'' (context_map ex_identified) \<and>
   filter is_lookup (new_calls ex_identified (snd (process_message ex_env ''hello'' ''080'' ex_identified))) = [] \<and>
   map_of (context_map (snd (process_message ex_env ''hello'' ''080'' ex_identified))) ''customer'' =
     map_of (context_map ex_identified) ''customer'' \<and>
   \<not> str_in ''agent'' (lower ''hello'') \<and> consented ex_consented \<and>
   \<not> key_in ''customer'' (context_map ex_consented) \<and>
   (\<exists>c\<in>set (customers ex_consented). c_phone c = ''080'') \<and>
   map_of (context_map (snd (process_message ex_env ''hello'' ''080'' ex_consented))) ''customer'' =
     Some (get_customer_info ''080'' ex_consented) \<and>
   filter is_lookup (new_calls ex_consented (snd (process_message ex_env ''hello'' ''080'' ex_consented))) =
     [Call_get_customer_info ''080'' True] \<and>
   \<not> (\<exists>c\<in>set (customers ex_consented). c_phone c = ''999'') \<and>
   fst (process_message ex_env ''hello'' ''999'' ex_consented) =
     Inr (''Sorry, we couldn'' @ [CHR 0x27] @ ''t find your details. Please contact support for assistance.'') \<and>
   snd (process_message ex_env ''hello'' ''999'' ex_consented) =
     ex_consented\<lparr>calls := calls ex_consented @ [Call_get_customer_info ''999'' False]\<rparr>"
proof -
  have h: "key_in ''customer'' (context_map ex_identified)"
    "\<not> str_in ''agent'' (lower ''hello'')" "consented ex_consented"
    "\<not> key_in ''customer'' (context_map ex_consented)"
    "\<exists>c\<in>set (customers ex_consented). c_phone c = ''080''"
    "\<forall>c\<in>set (customers ex_consented). c_phone c \<noteq> ''999''"
    by (simp_all add: string_eval example_eval)
  note cached = identity_lookup_cached [of "[(ex_env, ''agree'', ''080''), (ex_env, ''hello'', ''080''),
      (ex_env, ''hello'', ''080'')]" "[ex_agent]" "[ex_customer]" "[]" "[]"
      ex_identified ex_env "''hello''" "''080''"]
  note found = identity_lookup_cached [of "[]" "[]" "[]" "[]" "[]" ex_consented ex_env "''hello''" "''080''"]
  note missing = identity_lookup_cached [of "[]" "[]" "[]" "[]" "[]" ex_consented ex_env "''hello''" "''999''"]
  from cached h(1) have c1: "length (filter is_found_lookup
     (calls (run [(ex_env, ''agree'', ''080''), (ex_env, ''hello'', ''080''), (ex_env, ''hello'', ''080'')]
        (new_chatbot [ex_agent] [ex_customer] [] [])))) \<le> 1"
    and c2: "filter is_lookup (new_calls ex_identified (snd (process_message ex_env ''hello'' ''080'' ex_identified))) = []"
    and c3: "map_of (context_map (snd (process_message ex_env ''hello'' ''080'' ex_identified))) ''customer'' =
     map_of (context_map ex_identified) ''customer''"
    by blast+
  from found h(2-5) have c4:
    "map_of (context_map (snd (process_message ex_env ''hello'' ''080'' ex_consented))) ''customer'' =
       Some (get_customer_info ''080'' ex_consented)"
    and c5: "filter is_lookup (new_calls ex_consented (snd (process_message ex_env ''hello'' ''080'' ex_consented))) =
       [Call_get_customer_info ''080'' True]"
    by blast+
  from missing h(2-4,6) have c6: "fst (process_message ex_env ''hello'' ''999'' ex_consented) =
      Inr (''Sorry, we couldn'' @ [CHR 0x27] @ ''t find your details. Please contact support for assistance.'')"
    and c7: "snd (process_message ex_env ''hello'' ''999'' ex_consented) =
      ex_consented\<lparr>calls := calls ex_consented @ [Call_get_customer_info ''999'' False]\<rparr>"
    by blast+
  from h(6) have n: "\<not> (\<exists>c\<in>set (customers ex_consented). c_phone c = ''999'')"
    by blast
  from h(1-5) n c1 c2 c3 c4 c5 c6 c7 show ?thesis
    by (intro conjI)
qed

text \<open>
  The claim as stated fails for a phone number that no customer has: after consent, each
  of two messages looks the customer up.
\<close>

theorem identity_lookup_cached_counterexample:
  "calls (run [(ex_env, ''agree'', ''999''), (ex_env, ''hello'', ''999''), (ex_env, ''hello'', ''999'')]
     ex_new) =
     [Call_get_customer_info ''999'' False, Call_get_customer_info ''999'' False] \<and>
   length (filter is_lookup
     (calls (run [(ex_env, ''agree'', ''999''), (ex_env, ''hello'', ''999''), (ex_env, ''hello'', ''999'')]
        ex_new))) = 2"
  by (simp add: string_eval example_eval turn_eval)

subsection \<open>Order of the gates\<close>

lemma passed_gates:
  assumes "\<not> str_in ''agent'' (lower u)" and "consented s" and "resolve_customer p s = Inr s1"
    and "\<exists>ev\<in>set (new_calls s (snd (process_message e u p s))). routes_or_generates ev"
  shows "takeWhile (\<lambda>ev. \<not> routes_or_generates ev) (new_calls s (snd (process_message e u p s))) =
           (if key_in ''customer'' (context_map s) then [] else [Call_get_customer_info p True])"
proof -
  let ?pre = "if key_in ''customer'' (context_map s) then [] else [Call_get_customer_info p True]"
  obtain rest where rest: "calls (snd (process_message e u p s)) = calls s1 @ rest"
    "rest = [] \<or> routes_or_generates (hd rest)"
    using passed_turn(2) [OF assms(1-3)] by blast
  have "calls (snd (process_message e u p s)) = calls s @ (?pre @ rest)"
    using rest(1) resolve_customer_calls [OF assms(3)] by simp
  then have nc: "new_calls s (snd (process_message e u p s)) = ?pre @ rest"
    by (rule new_calls_append)
  have pre: "\<forall>ev\<in>set ?pre. \<not> routes_or_generates ev"
    by simp
  with assms(4) nc have "rest \<noteq> []"
    by auto
  with rest(2) obtain x xs where x: "rest = x # xs" "routes_or_generates x"
    by (cases rest) auto
  have "takeWhile (\<lambda>ev. \<not> routes_or_generates ev) (?pre @ rest) = ?pre"
    using x by simp
  with nc show ?thesis by simp
qed

lemma process_message_gates:
  assumes "\<exists>ev\<in>set (new_calls s (snd (process_message e u p s))). routes_or_generates ev"
  shows "consented s"
    and "takeWhile (\<lambda>ev. \<not> routes_or_generates ev) (new_calls s (snd (process_message e u p s))) =
           (if key_in ''customer'' (context_map s) then [] else [Call_get_customer_info p True])"
proof -
  have "consented s \<and>
      takeWhile (\<lambda>ev. \<not> routes_or_generates ev) (new_calls s (snd (process_message e u p s))) =
        (if key_in ''customer'' (context_map s) then [] else [Call_get_customer_info p True])"
  proof (cases rule: process_message_cases [where u = u and s = s and p = p])
    case agent
    obtain evs where evs: "calls (snd (process_message e u p s)) = calls s @ evs"
      "\<forall>ev\<in>set evs. ev = Call_get_available_agent \<or> (\<exists>i st. ev = Call_update_agent_status i st)"
      using agent_turn(2) [OF agent] by blast
    from evs(1) have "new_calls s (snd (process_message e u p s)) = evs"
      by (rule new_calls_append)
    with assms evs(2) show ?thesis by auto
  next
    case unconsented
    with unconsented_turn(1) [of u s e p] assms show ?thesis
      by (simp add: new_calls_def)
  next
    case denied
    with assms show ?thesis
      by (simp add: process_message_denied new_calls_def)
  next
    case (not_found s1)
    with assms resolve_customer_Inl(3) [of p s s1] show ?thesis
      by (simp add: process_message_not_found new_calls_def)
  next
    case (intent s1)
    with assms passed_gates [of u s p s1 e] show ?thesis by simp
  next
    case (generative s1)
    with assms passed_gates [of u s p s1 e] show ?thesis by simp
  qed
  then show "consented s"
    and "takeWhile (\<lambda>ev. \<not> routes_or_generates ev) (new_calls s (snd (process_message e u p s))) =
           (if key_in ''customer'' (context_map s) then [] else [Call_get_customer_info p True])"
    by simp_all
qed

lemma process_message_extends:
  "\<exists>evs. calls (snd (process_message e u p s)) = calls s @ evs"
proof (cases rule: process_message_cases [where u = u and s = s and p = p])
  case agent
  with agent_turn(2) [of u e p s] show ?thesis by blast
next
  case unconsented
  with unconsented_turn(1) [of u s e p] show ?thesis by simp
next
  case denied
  then show ?thesis by (simp add: process_message_denied)
next
  case (not_found s1)
  with resolve_customer_Inl(3) [of p s s1] show ?thesis
    by (simp add: process_message_not_found)
next
  case (intent s1)
  with passed_turn(2) [of u s p s1 e] resolve_customer_calls [of p s s1] show ?thesis
    by auto
next
  case (generative s1)
  with passed_turn(2) [of u s p s1 e] resolve_customer_calls [of p s s1] show ?thesis
    by auto
qed

text \<open>
  A turn that looks the customer up started consented and with no customer cached; the
  lookup is the first call of the turn and the only lookup.
\<close>

lemma process_message_lookup_gate:
  assumes "\<exists>ev\<in>set (new_calls s (snd (process_message e u p s))). is_lookup ev"
  shows "consented s \<and> \<not> key_in ''customer'' (context_map s) \<and>
         (\<exists>found. filter is_lookup (new_calls s (snd (process_message e u p s))) =
                     [Call_get_customer_info p found] \<and>
                   hd (new_calls s (snd (process_message e u p s))) = Call_get_customer_info p found)"
proof -
  obtain evs where evs: "calls (snd (process_message e u p s)) = calls s @ evs"
    using process_message_extends by blast
  then have nc: "new_calls s (snd (process_message e u p s)) = evs"
    by (rule new_calls_append)
  have lk: "filter is_lookup evs =
      (if \<not> str_in ''agent'' (lower u) \<and> consented s \<and> \<not> key_in ''customer'' (context_map s)
       then [Call_get_customer_info p (\<exists>c\<in>set (customers s). c_phone c = p)] else [])"
    using process_message_lookups [of e u p s] evs by simp
  from assms nc have "filter is_lookup evs \<noteq> []"
    by (auto simp: filter_empty_conv)
  with lk have g: "\<not> str_in ''agent'' (lower u)" "consented s" "\<not> key_in ''customer'' (context_map s)"
    by (auto split: if_splits)
  have "hd evs = Call_get_customer_info p (\<exists>c\<in>set (customers s). c_phone c = p)"
  proof (cases "resolve_customer p s")
    case (Inl s1)
    from resolve_customer_Inl(2,3) [OF Inl] g Inl evs show ?thesis
      by (auto simp: process_message_not_found)
  next
    case (Inr s1)
    obtain rest where rest: "calls (snd (process_message e u p s)) = calls s1 @ rest"
      using passed_turn(2) [OF g(1,2) Inr] by blast
    from resolve_customer_Inr(4) [OF Inr g(3)] have "\<exists>c\<in>set (customers s). c_phone c = p"
      by simp
    with rest resolve_customer_calls [OF Inr] g(3) evs show ?thesis
      by auto
  qed
  with g lk nc show ?thesis by simp
qed

lemma turns_gates:
  "privacy_ok s \<Longrightarrow>
   \<forall>(pre, p, evs)\<in>set (turns ts s).
     ((\<exists>ev\<in>set evs. routes_or_generates ev) \<longrightarrow>
        map_of (context_map pre) ''privacy'' = Some (PBool True) \<and>
        takeWhile (\<lambda>ev. \<not> routes_or_generates ev) evs =
          (if key_in ''customer'' (context_map pre) then [] else [Call_get_customer_info p True])) \<and>
     ((\<exists>ev\<in>set evs. is_lookup ev) \<longrightarrow>
        map_of (context_map pre) ''privacy'' = Some (PBool True) \<and>
        \<not> key_in ''customer'' (context_map pre) \<and>
        (\<exists>found. filter is_lookup evs = [Call_get_customer_info p found] \<and>
                  hd evs = Call_get_customer_info p found))"
proof (induction ts arbitrary: s)
  case Nil
  then show ?case by simp
next
  case (Cons t ts)
  obtain e u p where t: "t = (e, u, p)" by (cases t)
  have "privacy_ok (snd (process_message e u p s))"
    using Cons.prems by (rule process_message_privacy_ok)
  from Cons.IH [OF this] t Cons.prems process_message_gates [of s e u p]
    process_message_lookup_gate [of s e u p] consented_privacy_ok [of s]
  show ?case by simp
qed

text \<open>
  C1. In every session started from a new chatbot, a turn on which an intent is routed or
  the retrieval and generation pipeline is called started with the privacy flag recorded
  as \<^verbatim>\<open>True\<close>, and before the first such call the turn made exactly the identity
  gate's calls: none when the customer was cached, else the one successful lookup. The
  identity gate itself stands behind the consent gate: a turn that looks the customer up
  started with the privacy flag recorded as \<^verbatim>\<open>True\<close> and with no customer cached, and
  the lookup is the first call of the turn and its only lookup. The state a turn starts
  from is the one the turn before left, so the gates are passed again, in this order, on
  every turn.
\<close>

theorem gates_before_routing:
  "\<forall>(pre, p, evs)\<in>set (turns ts (new_chatbot ags cus ses au)).
     ((\<exists>ev\<in>set evs. routes_or_generates ev) \<longrightarrow>
        map_of (context_map pre) ''privacy'' = Some (PBool True) \<and>
        takeWhile (\<lambda>ev. \<not> routes_or_generates ev) evs =
          (if key_in ''customer'' (context_map pre) then [] else [Call_get_customer_info p True])) \<and>
     ((\<exists>ev\<in>set evs. is_lookup ev) \<longrightarrow>
        map_of (context_map pre) ''privacy'' = Some (PBool True) \<and>
        \<not> key_in ''customer'' (context_map pre) \<and>
        (\<exists>found. filter is_lookup evs = [Call_get_customer_info p found] \<and>
                  hd evs = Call_get_customer_info p found))"
  by (rule turns_gates) (rule new_chatbot_privacy_ok)

theorem gates_before_routing_witness:
  "(ex_consented, ''080'',
      [Call_get_customer_info ''080'' True, Call_handle_purpose ''make a claim'',
       Call_save_chat_context (PInt 1) ''{}''])
     \<in> set (turns [(ex_env, ''agree'', ''080''), (ex_env, ''make a claim'', ''080'')]
              (new_chatbot [ex_agent] [ex_customer] [] [])) \<and>
   (\<exists>ev\<in>set [Call_get_customer_info ''080'' True, Call_handle_purpose ''make a claim'',
               Call_save_chat_context (PInt 1) ''{}'']. routes_or_generates ev) \<and>
   (\<exists>ev\<in>set [Call_get_customer_info ''080'' True, Call_handle_purpose ''make a claim'',
               Call_save_chat_context (PInt 1) ''{}'']. is_lookup ev) \<and>
   map_of (context_map ex_consented) ''privacy'' = Some (PBool True) \<and>
   takeWhile (\<lambda>ev. \<not> routes_or_generates ev)
     [Call_get_customer_info ''080'' True, Call_handle_purpose ''make a claim'',
      Call_save_chat_context (PInt 1) ''{}''] =
     (if key_in ''customer'' (context_map ex_consented) then []
      else [Call_get_customer_info ''080'' True]) \<and>
   \<not> key_in ''customer'' (context_map ex_consented) \<and>
   (\<exists>found. filter is_lookup
       [Call_get_customer_info ''080'' True, Call_handle_purpose ''make a claim'',
        Call_save_chat_context (PInt 1) ''{}''] = [Call_get_customer_info ''080'' found] \<and>
      hd [Call_get_customer_info ''080'' True, Call_handle_purpose ''make a claim'',
          Call_save_chat_context (PInt 1) ''{}''] = Call_get_customer_info ''080'' found)"
proof -
  let ?evs = "[Call_get_customer_info ''080'' True, Call_handle_purpose ''make a claim'',
       Call_save_chat_context (PInt 1) ''{}'']"
  have m: "(ex_consented, ''080'', ?evs)
     \<in> set (turns [(ex_env, ''agree'', ''080''), (ex_env, ''make a claim'', ''080'')]
              (new_chatbot [ex_agent] [ex_customer] [] []))"
    by (simp add: string_eval example_eval turn_eval)
  have r: "\<exists>ev\<in>set ?evs. routes_or_generates ev" and l: "\<exists>ev\<in>set ?evs. is_lookup ev"
    by simp_all
  from bspec [OF gates_before_routing m]
  have g: "((\<exists>ev\<in>set ?evs. routes_or_generates ev) \<longrightarrow>
        map_of (context_map ex_consented) ''privacy'' = Some (PBool True) \<and>
        takeWhile (\<lambda>ev. \<not> routes_or_generates ev) ?evs =
          (if key_in ''customer'' (context_map ex_consented) then []
           else [Call_get_customer_info ''080'' True])) \<and>
     ((\<exists>ev\<in>set ?evs. is_lookup ev) \<longrightarrow>
        map_of (context_map ex_consented) ''privacy'' = Some (PBool True) \<and>
        \<not> key_in ''customer'' (context_map ex_consented) \<and>
        (\<exists>found. filter is_lookup ?evs = [Call_get_customer_info ''080'' found] \<and>
                  hd ?evs = Call_get_customer_info ''080'' found))"
    by (simp only: prod.case)
  with m r l show ?thesis by blast
qed


end
